theory Spec2Isabelle
  imports Main "HOL-Library.Word" "HOL-Library.Sublist" "HOL-Library.Char_ord"
begin

unbundle bit_operations_syntax

section \<open>The C backend puffs-gen-c as a shallow embedding\<close>

text \<open>
  The generator of \<^verbatim>\<open>src/unnamed/part_000\<close> writes C text into a byte buffer held in
  its \<^verbatim>\<open>gen\<close> struct and returns a Go \<^verbatim>\<open>error\<close>. Here the struct is a record that is
  passed in and returned, and every \<^verbatim>\<open>fmt.Errorf\<close> is a value of the type \<open>error\<close>:
  a method \<^verbatim>\<open>func (g *gen) f(...) error\<close> becomes \<open>f ... g :: error + gen\<close>.
\<close>

subsection \<open>Errors\<close>

text \<open>
  One constructor for each \<^verbatim>\<open>fmt.Errorf\<close> of the file, named after its message.
  \<open>BadAST\<close> stands for what Go does on an AST that the upstream checker never
  produces (a nil operand that is dereferenced, an operand of another node kind).
\<close>

datatype error =
    TooManyJumpTargets
  | CyclicalStructDefinitions
  | BadStatusMessage string
  | BodyRecursionDepthTooLarge
  | NotACallSuspendible
  | TooManyNestedIfs
  | ArrayInitializersTODO
  | UnrecognizedKindForWriteStatement
  | ExpressionRecursionDepthTooLarge
  | TooManyTemporaryVariables
  | CannotConvertCall
  | TemporaryCountOutOfSync
  | BoolConstantNeitherZeroNorOne
  | UnrecognizedKeyForWriteExpr
  | UnrecognizedKeyForWriteExprOther
  | TooManyPtrs
  | CannotConvertType
  | BadAST

subsection \<open>Formatting verbs of fmt\<close>

definition digitChar :: "nat \<Rightarrow> char" where
  "digitChar d = ''0123456789'' ! d"

function showNat :: "nat \<Rightarrow> string" where
  "showNat n = (if n < 10 then [digitChar n] else showNat (n div 10) @ [digitChar (n mod 10)])"
  by pat_completeness auto
termination
  by (relation "measure (\<lambda>n. n)") auto

declare showNat.simps [simp del]

text \<open>The verb \<^verbatim>\<open>%d\<close> on a Go int.\<close>

definition showInt :: "int \<Rightarrow> string" where
  "showInt i = (if i < 0 then CHR ''-'' # showNat (nat (- i)) else showNat (nat i))"

text \<open>
  \<^verbatim>\<open>%d\<close>, \<^verbatim>\<open>%s\<close> and \<^verbatim>\<open>String()\<close> on a \<^verbatim>\<open>*big.Int\<close>, which may be nil
  (math/big prints a nil pointer as \<^verbatim>\<open><nil>\<close>).
\<close>

definition showBig :: "int option \<Rightarrow> string" where
  "showBig cv = (case cv of None \<Rightarrow> ''<nil>'' | Some i \<Rightarrow> showInt i)"

definition hexDigit :: "nat \<Rightarrow> char" where
  "hexDigit d = ''0123456789abcdef'' ! d"

text \<open>
  The verb \<^verbatim>\<open>%q\<close> (strconv.Quote) on the bytes of an ASCII string: the quote and the
  backslash are escaped, the control characters get their Go escapes, every other
  ASCII character stands for itself. Bytes from 0x80 on are passed through, as Go does
  for the UTF-8 encoding of a printable rune.
\<close>

definition quoteChar :: "char \<Rightarrow> string" where
  \<open>quoteChar c =
    (let n = (of_char c :: nat) in
     if n = 0x22 then [CHR 0x5C, CHR 0x22]
     else if n = 0x5C then [CHR 0x5C, CHR 0x5C]
     else if n = 7 then [CHR 0x5C, CHR ''a'']
     else if n = 8 then [CHR 0x5C, CHR ''b'']
     else if n = 12 then [CHR 0x5C, CHR ''f'']
     else if n = 10 then [CHR 0x5C, CHR ''n'']
     else if n = 13 then [CHR 0x5C, CHR ''r'']
     else if n = 9 then [CHR 0x5C, CHR ''t'']
     else if n = 11 then [CHR 0x5C, CHR ''v'']
     else if n < 0x20 \<or> n = 0x7F
       then [CHR 0x5C, CHR ''x'', hexDigit (n div 16), hexDigit (n mod 16)]
     else [c])\<close>

definition quote :: "string \<Rightarrow> string" where
  \<open>quote s = [CHR 0x22] @ concat (map quoteChar s) @ [CHR 0x22]\<close>

subsection \<open>Tokens\<close>

text \<open>
  Modelled from the spec: the token package (\<^verbatim>\<open>lang/token\<close>) is not part of the
  sources at hand. A \<open>Key\<close> is a number, as in Go; the built-in keys are below 256 and
  the keys of interned user identifiers are not. The built-in keys that the generator
  names are numbered here in one fixed enumeration: the generator depends on their
  being distinct and below 256 only, never on the numbers. An \<open>ID\<close> is a key with the
  three operator flags that \<^verbatim>\<open>writeExpr\<close> switches on. The identifier table \<open>Map\<close>
  renders an \<open>ID\<close> and looks a name up.
\<close>

type_synonym Key = nat

named_theorems key_defs

definition KeyInvalid :: Key where [key_defs]: "KeyInvalid = 0"

definition KeyOpenParen :: Key where [key_defs]: "KeyOpenParen = 1"

definition KeyOpenBracket :: Key where [key_defs]: "KeyOpenBracket = 2"

definition KeyColon :: Key where [key_defs]: "KeyColon = 3"

definition KeyDot :: Key where [key_defs]: "KeyDot = 4"

definition KeyPtr :: Key where [key_defs]: "KeyPtr = 5"

definition KeyError :: Key where [key_defs]: "KeyError = 6"

definition KeyBreak :: Key where [key_defs]: "KeyBreak = 7"

definition KeyThis :: Key where [key_defs]: "KeyThis = 8"

definition KeyIn :: Key where [key_defs]: "KeyIn = 9"

definition KeyReadU8 :: Key where [key_defs]: "KeyReadU8 = 10"

definition KeyWrite :: Key where [key_defs]: "KeyWrite = 11"

definition KeyWriteU8 :: Key where [key_defs]: "KeyWriteU8 = 12"

definition KeyLowBits :: Key where [key_defs]: "KeyLowBits = 13"

definition KeyI8 :: Key where [key_defs]: "KeyI8 = 14"

definition KeyI16 :: Key where [key_defs]: "KeyI16 = 15"

definition KeyI32 :: Key where [key_defs]: "KeyI32 = 16"

definition KeyI64 :: Key where [key_defs]: "KeyI64 = 17"

definition KeyU8 :: Key where [key_defs]: "KeyU8 = 18"

definition KeyU16 :: Key where [key_defs]: "KeyU16 = 19"

definition KeyU32 :: Key where [key_defs]: "KeyU32 = 20"

definition KeyU64 :: Key where [key_defs]: "KeyU64 = 21"

definition KeyUsize :: Key where [key_defs]: "KeyUsize = 22"

definition KeyBool :: Key where [key_defs]: "KeyBool = 23"

definition KeyBuf1 :: Key where [key_defs]: "KeyBuf1 = 24"

definition KeyBuf2 :: Key where [key_defs]: "KeyBuf2 = 25"

definition KeyEq :: Key where [key_defs]: "KeyEq = 26"

definition KeyPlusEq :: Key where [key_defs]: "KeyPlusEq = 27"

definition KeyMinusEq :: Key where [key_defs]: "KeyMinusEq = 28"

definition KeyStarEq :: Key where [key_defs]: "KeyStarEq = 29"

definition KeySlashEq :: Key where [key_defs]: "KeySlashEq = 30"

definition KeyShiftLEq :: Key where [key_defs]: "KeyShiftLEq = 31"

definition KeyShiftREq :: Key where [key_defs]: "KeyShiftREq = 32"

definition KeyAmpEq :: Key where [key_defs]: "KeyAmpEq = 33"

definition KeyAmpHatEq :: Key where [key_defs]: "KeyAmpHatEq = 34"

definition KeyPipeEq :: Key where [key_defs]: "KeyPipeEq = 35"

definition KeyHatEq :: Key where [key_defs]: "KeyHatEq = 36"

definition KeyXUnaryPlus :: Key where [key_defs]: "KeyXUnaryPlus = 37"

definition KeyXUnaryMinus :: Key where [key_defs]: "KeyXUnaryMinus = 38"

definition KeyXUnaryNot :: Key where [key_defs]: "KeyXUnaryNot = 39"

definition KeyXBinaryPlus :: Key where [key_defs]: "KeyXBinaryPlus = 40"

definition KeyXBinaryMinus :: Key where [key_defs]: "KeyXBinaryMinus = 41"

definition KeyXBinaryStar :: Key where [key_defs]: "KeyXBinaryStar = 42"

definition KeyXBinarySlash :: Key where [key_defs]: "KeyXBinarySlash = 43"

definition KeyXBinaryShiftL :: Key where [key_defs]: "KeyXBinaryShiftL = 44"

definition KeyXBinaryShiftR :: Key where [key_defs]: "KeyXBinaryShiftR = 45"

definition KeyXBinaryAmp :: Key where [key_defs]: "KeyXBinaryAmp = 46"

definition KeyXBinaryAmpHat :: Key where [key_defs]: "KeyXBinaryAmpHat = 47"

definition KeyXBinaryPipe :: Key where [key_defs]: "KeyXBinaryPipe = 48"

definition KeyXBinaryHat :: Key where [key_defs]: "KeyXBinaryHat = 49"

definition KeyXBinaryNotEq :: Key where [key_defs]: "KeyXBinaryNotEq = 50"

definition KeyXBinaryLessThan :: Key where [key_defs]: "KeyXBinaryLessThan = 51"

definition KeyXBinaryLessEq :: Key where [key_defs]: "KeyXBinaryLessEq = 52"

definition KeyXBinaryEqEq :: Key where [key_defs]: "KeyXBinaryEqEq = 53"

definition KeyXBinaryGreaterEq :: Key where [key_defs]: "KeyXBinaryGreaterEq = 54"

definition KeyXBinaryGreaterThan :: Key where [key_defs]: "KeyXBinaryGreaterThan = 55"

definition KeyXBinaryAnd :: Key where [key_defs]: "KeyXBinaryAnd = 56"

definition KeyXBinaryOr :: Key where [key_defs]: "KeyXBinaryOr = 57"

definition KeyXBinaryAs :: Key where [key_defs]: "KeyXBinaryAs = 58"

definition KeyXAssociativePlus :: Key where [key_defs]: "KeyXAssociativePlus = 59"

definition KeyXAssociativeStar :: Key where [key_defs]: "KeyXAssociativeStar = 60"

definition KeyXAssociativeAmp :: Key where [key_defs]: "KeyXAssociativeAmp = 61"

definition KeyXAssociativePipe :: Key where [key_defs]: "KeyXAssociativePipe = 62"

definition KeyXAssociativeHat :: Key where [key_defs]: "KeyXAssociativeHat = 63"

definition KeyXAssociativeAnd :: Key where [key_defs]: "KeyXAssociativeAnd = 64"

definition KeyXAssociativeOr :: Key where [key_defs]: "KeyXAssociativeOr = 65"

datatype ID = ID (Key: Key) (FlagsUnaryOp: bool) (FlagsBinaryOp: bool) (FlagsAssociativeOp: bool)

text \<open>The Go zero value of an \<open>ID\<close>, which the code tests with \<^verbatim>\<open>== 0\<close>.\<close>

definition zeroID :: ID where
  "zeroID = ID 0 False False False"

record Map =
  String :: "ID \<Rightarrow> string"
  ByName :: "string \<Rightarrow> ID"

subsection \<open>The AST\<close>

text \<open>
  Modelled from the spec: the AST package (\<^verbatim>\<open>lang/ast\<close>) is not part of the sources
  at hand. Each node type carries what the generator reads through its accessors. A
  \<^verbatim>\<open>*big.Int\<close> constant value is an \<open>int option\<close>, a pointer that may be nil an
  \<open>option\<close>. A \<open>TypeExpr\<close> keeps, of its array length and of its two bounds, the
  constant value only (\<open>None\<close> for a bound that is nil, \<open>Some None\<close> for a bound
  with no constant value).
\<close>

datatype TypeExpr = TypeExpr
  (Decorator: ID)
  (Name: ID)
  (ArrayLength: "int option")
  (Bounds: "int option option \<times> int option option")
  (IsRefined: bool)
  (IsBool: bool)
  (Inner: "TypeExpr option")

datatype Expr = Expr
  (ID0: ID)
  (ID1: ID)
  (LHS: "Node option")
  (MHS: "Node option")
  (RHS: "Node option")
  (Args: "Node list")
  (Suspendible: bool)
  (CallSuspendible: bool)
  (CallImpure: bool)
  (ConstValue: "int option")
  (MType: TypeExpr)
and Node =
    KArg ID Expr
  | KAssert
  | KAssign Expr ID Expr
  | KExpr Expr
  | KIf If
  | KJump ID nat
  | KReturn ID ID
  | KTypeExpr TypeExpr
  | KVar ID TypeExpr "Expr option"
  | KWhile While
  | KOther
and If = If
  (Condition: Expr)
  (BodyIfTrue: "Node list")
  (BodyIfFalse: "Node list")
  (ElseIf: "If option")
and While = While
  (Addr: nat)
  (Condition: Expr)
  (HasContinue: bool)
  (HasBreak: bool)
  (Body: "Node list")

text \<open>
  \<open>KArg name value\<close>, \<open>KAssign lhs operator rhs\<close>, \<open>KJump keyword target\<close> (the
  target is the address of a \<open>While\<close> node, which Go compares as a pointer),
  \<open>KReturn keyword message\<close>, \<open>KVar name xtype value\<close>; \<open>KOther\<close> is a node of any
  kind that \<^verbatim>\<open>writeStatement\<close> has no case for.
\<close>

record Field =
  Name :: ID
  XType :: TypeExpr
  DefaultValue :: "int option option"

record Struct =
  Name :: ID
  Fields :: "Field list"
  Public :: bool
  Suspendible :: bool

record Func =
  Receiver :: ID
  Name :: ID
  In :: "Field list"
  Body :: "Node list"
  Public :: bool
  Suspendible :: bool

record Status =
  Keyword :: ID
  Message :: ID
  Public :: bool

datatype TopLevelDecl = KStruct Struct | KFunc Func | KStatus Status | KUse

type_synonym File = "TopLevelDecl list"

text \<open>
  What the generator takes from outside its own file: the two depth limits of the AST
  package, the two fixed C texts that \<^verbatim>\<open>go generate\<close> produces, and the topological
  sort of the structs (which answers \<open>None\<close> on a cycle).
\<close>

record deps =
  MaxBodyDepth :: "32 word"
  MaxExprDepth :: "32 word"
  baseHeader :: string
  baseImpl :: string
  TopologicalSortStructs :: "Struct list \<Rightarrow> Struct list option"

subsection \<open>The generator's state\<close>

definition userDefinedStatusBase :: nat where
  "userDefinedStatusBase = 128"

definition builtInStatuses :: "string list" where
  "builtInStatuses =
    [''status ok'',
     ''error bad version'',
     ''error bad receiver'',
     ''error bad argument'',
     ''error constructor not called'',
     ''error unexpected EOF'',
     ''status short read'',
     ''status short write'',
     ''error closed for writes'']"

datatype visibility = bothPubPri | pubOnly | priOnly

definition maxTemp :: "32 word" where
  "maxTemp = 10000"

record status =
  name :: string
  msg :: string
  isError :: bool

text \<open>
  The map \<^verbatim>\<open>jumpTargets\<close> is keyed by a pointer to a \<open>While\<close> node, which is the
  node's address \<open>Addr\<close> here; it is an association list, in the order of insertion,
  so that its length is Go's \<^verbatim>\<open>len\<close> (a key is inserted only when it is absent).
\<close>

record perFunc =
  funk :: "Func option"
  jumpTargets :: "(nat \<times> 32 word) list"
  tempW :: "32 word"
  tempR :: "32 word"
  "public" :: bool
  suspendible :: bool

record gen =
  buffer :: string
  pkgName :: string
  tm :: Map
  files :: "File list"
  statusList :: "status list"
  statusMap :: "ID \<Rightarrow> status option"
  structList :: "Struct list"
  structMap :: "ID \<Rightarrow> Struct option"
  perFunc :: perFunc

definition writeb :: "char \<Rightarrow> gen \<Rightarrow> gen" where
  "writeb b g = g\<lparr>buffer := buffer g @ [b]\<rparr>"

definition writes :: "string \<Rightarrow> gen \<Rightarrow> gen" where
  "writes s g = g\<lparr>buffer := buffer g @ s\<rparr>"

text \<open>
  The Go idiom \<^verbatim>\<open>for _, x := range xs { if err := f(x); err != nil { return err } }\<close>.
\<close>

fun forEach :: "('a \<Rightarrow> gen \<Rightarrow> error + gen) \<Rightarrow> 'a list \<Rightarrow> gen \<Rightarrow> error + gen" where
  "forEach f [] g = Inr g"
| "forEach f (x # xs) g = (case f x g of Inl e \<Rightarrow> Inl e | Inr g' \<Rightarrow> forEach f xs g')"

lemma forEach_cong [fundef_cong]:
  "xs = ys \<Longrightarrow> g = h \<Longrightarrow> (\<And>x s. x \<in> set ys \<Longrightarrow> f x s = f' x s)
    \<Longrightarrow> forEach f xs g = forEach f' ys h"
proof (induction ys arbitrary: xs g h)
  case Nil
  then show ?case by simp
next
  case (Cons y ys)
  then show ?case by (auto split: sum.splits)
qed

definition jumpTarget :: "nat \<Rightarrow> gen \<Rightarrow> error + (32 word \<times> gen)" where
  "jumpTarget n g =
    (case map_of (jumpTargets (perFunc g)) n of
       Some jt \<Rightarrow> Inr (jt, g)
     | None \<Rightarrow>
        (let jt = (word_of_nat (length (jumpTargets (perFunc g))) :: 32 word) in
         if jt = 1000000 then Inl TooManyJumpTargets
         else Inr (jt, g\<lparr>perFunc := (perFunc g)\<lparr>jumpTargets :=
                 jumpTargets (perFunc g) @ [(n, jt)]\<rparr>\<rparr>)))"

subsection \<open>The name mangler\<close>

text \<open>
  Go ranges over the runes of \<^verbatim>\<open>name\<close>. A rune outside ASCII matches no branch and
  is dropped, and so is each of the bytes (all from 0x80 on) of its UTF-8 encoding, so
  that the loop over the bytes computes the same.
\<close>

fun cNameLoop :: "string \<Rightarrow> string" where
  "cNameLoop [] = []"
| "cNameLoop (r # rs) =
    (if CHR ''A'' \<le> r \<and> r \<le> CHR ''Z''
       then char_of (of_char r + of_char CHR ''a'' - of_char CHR ''A'' :: nat) # cNameLoop rs
     else if (CHR ''a'' \<le> r \<and> r \<le> CHR ''z'') \<or> (CHR ''0'' \<le> r \<and> r \<le> CHR ''9'') \<or> CHR ''_'' = r
       then r # cNameLoop rs
     else if CHR '' '' = r
       then CHR ''_'' # cNameLoop rs
     else cNameLoop rs)"

definition cName :: "gen \<Rightarrow> string \<Rightarrow> string" where
  "cName g nm = ''puffs_'' @ pkgName g @ ''_'' @ cNameLoop nm"

subsection \<open>The collector\<close>

definition forEachFunc :: "visibility \<Rightarrow> (Func \<Rightarrow> gen \<Rightarrow> error + gen) \<Rightarrow> gen \<Rightarrow> error + gen" where
  "forEachFunc v f g =
    forEach (\<lambda>file. forEach (\<lambda>n.
      (case n of
         KFunc fn \<Rightarrow>
           if (v = pubOnly \<and> \<not> Func.Public fn) \<or> (v = priOnly \<and> Func.Public fn)
           then Inr
           else f fn
       | _ \<Rightarrow> Inr)) file) (files g) g"

definition forEachStatus :: "visibility \<Rightarrow> (Status \<Rightarrow> gen \<Rightarrow> error + gen) \<Rightarrow> gen \<Rightarrow> error + gen" where
  "forEachStatus v f g =
    forEach (\<lambda>file. forEach (\<lambda>n.
      (case n of
         KStatus st \<Rightarrow>
           if (v = pubOnly \<and> \<not> Status.Public st) \<or> (v = priOnly \<and> Status.Public st)
           then Inr
           else f st
       | _ \<Rightarrow> Inr)) file) (files g) g"

definition gatherStatuses :: "Status \<Rightarrow> gen \<Rightarrow> error + gen" where
  \<open>gatherStatuses n g =
    (let msg = String (tm g) (Message n) in
     if length msg < 2 \<or> msg ! 0 \<noteq> CHR 0x22 \<or> msg ! (length msg - 1) \<noteq> CHR 0x22
     then Inl (BadStatusMessage msg)
     else
       let msg = take (length msg - 1 - 1) (drop 1 msg);
           isError = (Key (Keyword n) = KeyError);
           prefix = (if isError then ''error '' else ''status '');
           s = \<lparr>name = cName g (prefix @ msg), msg = msg, isError = isError\<rparr>
       in Inr (g\<lparr>statusList := statusList g @ [s],
                statusMap := (statusMap g)(Message n \<mapsto> s)\<rparr>))\<close>

subsection \<open>The tables\<close>

text \<open>
  A Go array literal with keyed elements; an index with no element holds the zero
  value. The length of \<^verbatim>\<open>cTypeNames\<close> is one more than its largest key.
\<close>

definition numTypeBounds :: "(Key \<times> int option \<times> int option) list" where
  "numTypeBounds =
    [(KeyI8, Some (- (2 ^ 7)), Some (2 ^ 7 - 1)),
     (KeyI16, Some (- (2 ^ 15)), Some (2 ^ 15 - 1)),
     (KeyI32, Some (- (2 ^ 31)), Some (2 ^ 31 - 1)),
     (KeyI64, Some (- (2 ^ 63)), Some (2 ^ 63 - 1)),
     (KeyU8, Some 0, Some (2 ^ 8 - 1)),
     (KeyU16, Some 0, Some (2 ^ 16 - 1)),
     (KeyU32, Some 0, Some (2 ^ 32 - 1)),
     (KeyU64, Some 0, Some (2 ^ 64 - 1)),
     (KeyUsize, Some 0, Some 0),
     (KeyBool, Some 0, Some 1)]"

definition numTypeBoundsAt :: "Key \<Rightarrow> int option \<times> int option" where
  "numTypeBoundsAt k = (case map_of numTypeBounds k of Some b \<Rightarrow> b | None \<Rightarrow> (None, None))"

definition cTypeNames :: "(Key \<times> string) list" where
  "cTypeNames =
    [(KeyI8, ''int8_t''),
     (KeyI16, ''int16_t''),
     (KeyI32, ''int32_t''),
     (KeyI64, ''int64_t''),
     (KeyU8, ''uint8_t''),
     (KeyU16, ''uint16_t''),
     (KeyU32, ''uint32_t''),
     (KeyU64, ''uint64_t''),
     (KeyUsize, ''size_t''),
     (KeyBool, ''bool''),
     (KeyBuf1, ''puffs_base_buf1''),
     (KeyBuf2, ''puffs_base_buf2'')]"

definition cTypeNamesLen :: nat where
  "cTypeNamesLen = Suc (fold max (map fst cTypeNames) 0)"

definition cTypeNamesAt :: "Key \<Rightarrow> string" where
  "cTypeNamesAt k = (case map_of cTypeNames k of Some s \<Rightarrow> s | None \<Rightarrow> [])"

definition cOpNames :: "(Key \<times> string) list" where
  "cOpNames =
    [(KeyEq, '' = ''),
     (KeyPlusEq, '' += ''),
     (KeyMinusEq, '' -= ''),
     (KeyStarEq, '' *= ''),
     (KeySlashEq, '' /= ''),
     (KeyShiftLEq, '' <<= ''),
     (KeyShiftREq, '' >>= ''),
     (KeyAmpEq, '' &= ''),
     (KeyAmpHatEq, '' no_such_amp_hat_C_operator ''),
     (KeyPipeEq, '' |= ''),
     (KeyHatEq, '' ^= ''),
     (KeyXUnaryPlus, ''+''),
     (KeyXUnaryMinus, ''-''),
     (KeyXUnaryNot, ''!''),
     (KeyXBinaryPlus, '' + ''),
     (KeyXBinaryMinus, '' - ''),
     (KeyXBinaryStar, '' * ''),
     (KeyXBinarySlash, '' / ''),
     (KeyXBinaryShiftL, '' << ''),
     (KeyXBinaryShiftR, '' >> ''),
     (KeyXBinaryAmp, '' & ''),
     (KeyXBinaryAmpHat, '' no_such_amp_hat_C_operator ''),
     (KeyXBinaryPipe, '' | ''),
     (KeyXBinaryHat, '' ^ ''),
     (KeyXBinaryNotEq, '' != ''),
     (KeyXBinaryLessThan, '' < ''),
     (KeyXBinaryLessEq, '' <= ''),
     (KeyXBinaryEqEq, '' == ''),
     (KeyXBinaryGreaterEq, '' >= ''),
     (KeyXBinaryGreaterThan, '' > ''),
     (KeyXBinaryAnd, '' && ''),
     (KeyXBinaryOr, '' || ''),
     (KeyXBinaryAs, '' no_such_as_C_operator ''),
     (KeyXAssociativePlus, '' + ''),
     (KeyXAssociativeStar, '' * ''),
     (KeyXAssociativeAmp, '' & ''),
     (KeyXAssociativePipe, '' | ''),
     (KeyXAssociativeHat, '' ^ ''),
     (KeyXAssociativeAnd, '' && ''),
     (KeyXAssociativeOr, '' || '')]"

definition cOpNamesAt :: "Key \<Rightarrow> string" where
  "cOpNamesAt k = (case map_of cOpNames k of Some s \<Rightarrow> s | None \<Rightarrow> [])"

subsection \<open>Type lowering\<close>

definition aPrefix :: string where "aPrefix = ''a_''"

definition fPrefix :: string where "fPrefix = ''f_''"

definition tPrefix :: string where "tPrefix = ''t_''"

definition vPrefix :: string where "vPrefix = ''v_''"

definition maxNumPointers :: nat where
  "maxNumPointers = 16"

text \<open>The loop that steps over the array decorators of a type.\<close>

fun skipArrays :: "TypeExpr option \<Rightarrow> TypeExpr option" where
  "skipArrays None = None"
| "skipArrays (Some (TypeExpr dec nm len bnd rf bl inn)) =
    (if Key dec = KeyOpenBracket then skipArrays inn
     else Some (TypeExpr dec nm len bnd rf bl inn))"

text \<open>The loop that counts the pointer decorators, down to the innermost type.\<close>

fun countPointers :: "nat \<Rightarrow> TypeExpr option \<Rightarrow> error + (nat \<times> TypeExpr option)" where
  "countPointers numPointers None = Inr (numPointers, None)"
| "countPointers numPointers (Some (TypeExpr dec nm len bnd rf bl None)) =
    Inr (numPointers, Some (TypeExpr dec nm len bnd rf bl None))"
| "countPointers numPointers (Some (TypeExpr dec nm len bnd rf bl (Some inn))) =
    (if Key dec = KeyPtr then
       (if numPointers = maxNumPointers then Inl TooManyPtrs
        else countPointers (numPointers + 1) (Some inn))
     else Inl CannotConvertType)"

text \<open>The loop that writes the array extents, outermost first.\<close>

fun writeArrayLengths :: "TypeExpr option \<Rightarrow> gen \<Rightarrow> gen" where
  "writeArrayLengths None g = g"
| "writeArrayLengths (Some (TypeExpr dec nm len bnd rf bl inn)) g =
    (if Key dec = KeyOpenBracket
     then writeArrayLengths inn (writeb CHR '']'' (writes (showBig len) (writeb CHR ''['' g)))
     else g)"

definition writeCTypeName :: "TypeExpr \<Rightarrow> string \<Rightarrow> string \<Rightarrow> gen \<Rightarrow> error + gen" where
  "writeCTypeName n varNamePrefix varName g =
    (case countPointers 0 (skipArrays (Some n)) of
       Inl e \<Rightarrow> Inl e
     | Inr (numPointers, None) \<Rightarrow> Inl BadAST
     | Inr (numPointers, Some innermost) \<Rightarrow>
        (let k = Key (TypeExpr.Name innermost);
             g = (if k < cTypeNamesLen \<and> cTypeNamesAt k \<noteq> []
                  then writes (cTypeNamesAt k) g
                  else writes (''puffs_'' @ pkgName g @ ''_'' @ String (tm g) (TypeExpr.Name n)) g);
             g = writes (replicate numPointers CHR ''*'') g;
             g = writeb CHR '' '' g;
             g = writes varNamePrefix g;
             g = writes varName g
         in Inr (writeArrayLengths (Some n) g)))"

subsection \<open>Expression lowering\<close>

type_synonym replacementPolicy = bool

definition replaceNothing :: replacementPolicy where
  "replaceNothing = False"

definition replaceCallSuspendibles :: replacementPolicy where
  "replaceCallSuspendibles = True"

type_synonym parenthesesPolicy = bool

definition parenthesesMandatory :: parenthesesPolicy where
  "parenthesesMandatory = False"

definition parenthesesOptional :: parenthesesPolicy where
  "parenthesesOptional = True"

text \<open>
  The casts \<^verbatim>\<open>n.Expr()\<close>, \<^verbatim>\<open>n.TypeExpr()\<close> and \<^verbatim>\<open>n.Arg().Value()\<close> of a node pointer
  that may be nil. They answer \<open>None\<close> where the node is nil or of another kind; the
  caller then stops with \<open>BadAST\<close>.
\<close>

fun exprOf :: "Node option \<Rightarrow> Expr option" where
  "exprOf (Some (KExpr e)) = Some e"
| "exprOf _ = None"

fun typeExprOf :: "Node option \<Rightarrow> TypeExpr option" where
  "typeExprOf (Some (KTypeExpr t)) = Some t"
| "typeExprOf _ = None"

fun argValueOf :: "Node \<Rightarrow> Expr option" where
  "argValueOf (KArg nm v) = Some v"
| "argValueOf _ = None"

definition isInSrcReadU8 :: "Map \<Rightarrow> Expr \<Rightarrow> error + bool" where
  "isInSrcReadU8 tmap n =
    (if Key (ID0 n) \<noteq> KeyOpenParen \<or> \<not> CallSuspendible n \<or> length (Args n) \<noteq> 0 then Inr False
     else case exprOf (LHS n) of None \<Rightarrow> Inl BadAST | Some n \<Rightarrow>
       if Key (ID0 n) \<noteq> KeyDot \<or> Key (ID1 n) \<noteq> KeyReadU8 then Inr False
       else case exprOf (LHS n) of None \<Rightarrow> Inl BadAST | Some n \<Rightarrow>
         if Key (ID0 n) \<noteq> KeyDot \<or> ID1 n \<noteq> ByName tmap ''src'' then Inr False
         else case exprOf (LHS n) of None \<Rightarrow> Inl BadAST | Some n \<Rightarrow>
           Inr (ID0 n = zeroID \<and> Key (ID1 n) = KeyIn))"

definition isInDst :: "Map \<Rightarrow> Expr \<Rightarrow> Key \<Rightarrow> error + bool" where
  "isInDst tmap n methodName =
    (if Key (ID0 n) \<noteq> KeyOpenParen \<or> \<not> CallSuspendible n \<or> length (Args n) \<noteq> 1 then Inr False
     else case exprOf (LHS n) of None \<Rightarrow> Inl BadAST | Some n \<Rightarrow>
       if Key (ID0 n) \<noteq> KeyDot \<or> Key (ID1 n) \<noteq> methodName then Inr False
       else case exprOf (LHS n) of None \<Rightarrow> Inl BadAST | Some n \<Rightarrow>
         if Key (ID0 n) \<noteq> KeyDot \<or> ID1 n \<noteq> ByName tmap ''dst'' then Inr False
         else case exprOf (LHS n) of None \<Rightarrow> Inl BadAST | Some n \<Rightarrow>
           Inr (ID0 n = zeroID \<and> Key (ID1 n) = KeyIn))"

definition isThisDecodeHeader :: "Map \<Rightarrow> Expr \<Rightarrow> error + bool" where
  "isThisDecodeHeader tmap n =
    (if Key (ID0 n) \<noteq> KeyOpenParen \<or> \<not> CallSuspendible n \<or> length (Args n) \<noteq> 1 then Inr False
     else case exprOf (LHS n) of None \<Rightarrow> Inl BadAST | Some n \<Rightarrow>
       if Key (ID0 n) \<noteq> KeyDot \<or> ID1 n \<noteq> ByName tmap ''decode_header'' then Inr False
       else case exprOf (LHS n) of None \<Rightarrow> Inl BadAST | Some n \<Rightarrow>
         Inr (ID0 n = zeroID \<and> Key (ID1 n) = KeyThis))"

definition isLowBits :: "Map \<Rightarrow> Expr \<Rightarrow> error + bool" where
  "isLowBits tmap n =
    (if Key (ID0 n) \<noteq> KeyOpenParen \<or> CallImpure n \<or> length (Args n) \<noteq> 1 then Inr False
     else case exprOf (LHS n) of None \<Rightarrow> Inl BadAST | Some n \<Rightarrow>
       Inr (Key (ID0 n) = KeyDot \<and> Key (ID1 n) = KeyLowBits))"

lemma size_exprOf [termination_simp]:
  "exprOf x = Some e \<Longrightarrow> size e < size_option size x"
  by (cases x rule: exprOf.cases) auto

lemma size_exprOf_Some [termination_simp]:
  "exprOf (Some a) = Some e \<Longrightarrow> size e < Suc (size a + k)"
  by (cases a) auto

lemma size_LHS [termination_simp]:
  "size_option size (LHS n) < size n"
  by (cases n) auto

lemma size_RHS [termination_simp]:
  "size_option size (RHS n) < size n"
  by (cases n) auto

lemma size_Args [termination_simp]:
  "size_list size (Args n) < size n"
  by (cases n) auto

lemma size_argValueOf [termination_simp]:
  "argValueOf x = Some e \<Longrightarrow> size e < size x"
  by (cases x rule: argValueOf.cases) auto

lemma size_hd_Args [termination_simp]:
  "Args n = x # xs \<Longrightarrow> argValueOf x = Some e \<Longrightarrow> size e < size n"
  using size_Args [of n] size_argValueOf [of x e] by simp

lemma size_exprOf_LHS [termination_simp]:
  "exprOf (LHS n) = Some e \<Longrightarrow> size e < size n"
  using size_exprOf [of "LHS n" e] size_LHS [of n] by simp

lemma size_exprOf_RHS [termination_simp]:
  "exprOf (RHS n) = Some e \<Longrightarrow> size e < size n"
  using size_exprOf [of "RHS n" e] size_RHS [of n] by simp

lemma size_exprOf_LHS_LHS [termination_simp]:
  "exprOf (LHS n) = Some l \<Longrightarrow> exprOf (LHS l) = Some e \<Longrightarrow> size e < size n"
  using size_exprOf_LHS [of n l] size_exprOf_LHS [of l e] by simp

function writeExpr ::
    "deps \<Rightarrow> Expr \<Rightarrow> replacementPolicy \<Rightarrow> parenthesesPolicy \<Rightarrow> 32 word \<Rightarrow> gen \<Rightarrow> error + gen"
  and writeExprOther ::
    "deps \<Rightarrow> Expr \<Rightarrow> replacementPolicy \<Rightarrow> 32 word \<Rightarrow> gen \<Rightarrow> error + gen"
  and writeExprUnaryOp ::
    "deps \<Rightarrow> Expr \<Rightarrow> replacementPolicy \<Rightarrow> 32 word \<Rightarrow> gen \<Rightarrow> error + gen"
  and writeExprBinaryOp ::
    "deps \<Rightarrow> Expr \<Rightarrow> replacementPolicy \<Rightarrow> parenthesesPolicy \<Rightarrow> 32 word \<Rightarrow> gen \<Rightarrow> error + gen"
  and writeExprAs ::
    "deps \<Rightarrow> Expr \<Rightarrow> TypeExpr \<Rightarrow> replacementPolicy \<Rightarrow> 32 word \<Rightarrow> gen \<Rightarrow> error + gen"
  and writeExprAssociativeOp ::
    "deps \<Rightarrow> Expr \<Rightarrow> replacementPolicy \<Rightarrow> 32 word \<Rightarrow> gen \<Rightarrow> error + gen"
  and writeExprAssociativeArgs ::
    "deps \<Rightarrow> string \<Rightarrow> bool \<Rightarrow> Node list \<Rightarrow> replacementPolicy \<Rightarrow> 32 word \<Rightarrow> gen \<Rightarrow> error + gen"
where
  "writeExpr d n rp pp depth g =
    (if depth > MaxExprDepth d then Inl ExpressionRecursionDepthTooLarge
     else
       if rp = replaceCallSuspendibles \<and> CallSuspendible n then
         (if tempR (perFunc g) \<ge> tempW (perFunc g) then Inl TemporaryCountOutOfSync
          else Inr ((writes (tPrefix @ showNat (unat (tempR (perFunc g)))) g)
                 \<lparr>perFunc := (perFunc g)\<lparr>tempR := tempR (perFunc g) + 1\<rparr>\<rparr>))
       else
         (case ConstValue n of
            Some cv \<Rightarrow>
              (if \<not> IsBool (MType n) then Inr (writes (showInt cv) g)
               else if cv = 0 then Inr (writes ''false'' g)
               else if cv = 1 then Inr (writes ''true'' g)
               else Inl BoolConstantNeitherZeroNorOne)
          | None \<Rightarrow>
              (if \<not> FlagsUnaryOp (ID0 n) \<and> \<not> FlagsBinaryOp (ID0 n) \<and> \<not> FlagsAssociativeOp (ID0 n)
                 then writeExprOther d n rp (depth + 1) g
               else if FlagsUnaryOp (ID0 n) \<and> \<not> FlagsBinaryOp (ID0 n) \<and> \<not> FlagsAssociativeOp (ID0 n)
                 then writeExprUnaryOp d n rp (depth + 1) g
               else if \<not> FlagsUnaryOp (ID0 n) \<and> FlagsBinaryOp (ID0 n) \<and> \<not> FlagsAssociativeOp (ID0 n)
                 then writeExprBinaryOp d n rp pp (depth + 1) g
               else if \<not> FlagsUnaryOp (ID0 n) \<and> \<not> FlagsBinaryOp (ID0 n) \<and> FlagsAssociativeOp (ID0 n)
                 then writeExprAssociativeOp d n rp (depth + 1) g
               else Inl UnrecognizedKeyForWriteExpr)))"
| "writeExprOther d n rp depth g =
    (if Key (ID0 n) = 0 then
       (if Key (ID1 n) = KeyThis then Inr (writes ''self->private_impl'' g)
        else Inr (writes (String (tm g) (ID1 n)) (writes vPrefix g)))
     else if Key (ID0 n) = KeyOpenParen then
       (case isLowBits (tm g) n of
          Inl e \<Rightarrow> Inl e
        | Inr False \<Rightarrow> Inl UnrecognizedKeyForWriteExprOther
        | Inr True \<Rightarrow>
           (case exprOf (LHS n) of None \<Rightarrow> Inl BadAST | Some l \<Rightarrow>
            case exprOf (LHS l) of None \<Rightarrow> Inl BadAST | Some x \<Rightarrow>
            case writeExpr d x rp parenthesesMandatory depth (writes ''PUFFS_LOW_BITS('' g) of
              Inl e \<Rightarrow> Inl e
            | Inr g \<Rightarrow>
               (case Args n of [] \<Rightarrow> Inl BadAST | a # as \<Rightarrow>
                case argValueOf a of None \<Rightarrow> Inl BadAST | Some v \<Rightarrow>
                case writeExpr d v rp parenthesesMandatory depth (writes '','' g) of
                  Inl e \<Rightarrow> Inl e
                | Inr g \<Rightarrow> Inr (writes '')'' g))))
     else if Key (ID0 n) = KeyOpenBracket then
       (case exprOf (LHS n) of None \<Rightarrow> Inl BadAST | Some l \<Rightarrow>
        case writeExpr d l rp parenthesesMandatory depth g of
          Inl e \<Rightarrow> Inl e
        | Inr g \<Rightarrow>
           (case exprOf (RHS n) of None \<Rightarrow> Inl BadAST | Some r \<Rightarrow>
            case writeExpr d r rp parenthesesOptional depth (writeb CHR ''['' g) of
              Inl e \<Rightarrow> Inl e
            | Inr g \<Rightarrow> Inr (writeb CHR '']'' g)))
     else if Key (ID0 n) = KeyColon then Inl UnrecognizedKeyForWriteExprOther
     else if Key (ID0 n) = KeyDot then
       (case exprOf (LHS n) of None \<Rightarrow> Inl BadAST | Some l \<Rightarrow>
        if Key (ID1 l) = KeyIn then Inr (writes (String (tm g) (ID1 n)) (writes aPrefix g))
        else
          case writeExpr d l rp parenthesesMandatory depth g of
            Inl e \<Rightarrow> Inl e
          | Inr g \<Rightarrow> Inr (writes (String (tm g) (ID1 n)) (writes fPrefix (writes ''.'' g))))
     else Inl UnrecognizedKeyForWriteExprOther)"
| "writeExprUnaryOp d n rp depth g = Inr g"
| "writeExprBinaryOp d n rp pp depth g =
    (if Key (ID0 n) = KeyXBinaryAs then
       (case exprOf (LHS n) of None \<Rightarrow> Inl BadAST | Some l \<Rightarrow>
        case typeExprOf (RHS n) of None \<Rightarrow> Inl BadAST | Some r \<Rightarrow>
          writeExprAs d l r rp depth g)
     else
       (case exprOf (LHS n) of None \<Rightarrow> Inl BadAST | Some l \<Rightarrow>
        case writeExpr d l rp parenthesesMandatory depth
               (if pp = parenthesesMandatory then writeb CHR ''('' g else g) of
          Inl e \<Rightarrow> Inl e
        | Inr g \<Rightarrow>
           (case exprOf (RHS n) of None \<Rightarrow> Inl BadAST | Some r \<Rightarrow>
            case writeExpr d r rp parenthesesMandatory depth
                   (writes (cOpNamesAt (0xFF AND Key (ID0 n))) g) of
              Inl e \<Rightarrow> Inl e
            | Inr g \<Rightarrow> Inr (if pp = parenthesesMandatory then writeb CHR '')'' g else g))))"
| "writeExprAs d lhs rhs rp depth g =
    (case writeCTypeName rhs [] [] (writes ''(('' g) of
       Inl e \<Rightarrow> Inl e
     | Inr g \<Rightarrow>
        (case writeExpr d lhs rp parenthesesMandatory depth (writes '')('' g) of
           Inl e \<Rightarrow> Inl e
         | Inr g \<Rightarrow> Inr (writes ''))'' g)))"
| "writeExprAssociativeOp d n rp depth g =
    writeExprAssociativeArgs d (cOpNamesAt (0xFF AND Key (ID0 n))) True (Args n) rp depth g"
| "writeExprAssociativeArgs d opName first [] rp depth g = Inr g"
| "writeExprAssociativeArgs d opName first (a # as) rp depth g =
    (case exprOf (Some a) of None \<Rightarrow> Inl BadAST | Some x \<Rightarrow>
     case writeExpr d x rp parenthesesMandatory depth (if first then g else writes opName g) of
       Inl e \<Rightarrow> Inl e
     | Inr g \<Rightarrow> writeExprAssociativeArgs d opName False as rp depth g)"
  by pat_completeness auto

termination writeExpr
  by (relation "inv_image (less_than <*lex*> less_than) (\<lambda>x. case x of
      Inl (Inl (d, n, rp, pp, depth, g)) \<Rightarrow> (size n, 2::nat)
    | Inl (Inr (Inl (d, n, rp, depth, g))) \<Rightarrow> (size n, 1)
    | Inl (Inr (Inr (d, n, rp, depth, g))) \<Rightarrow> (size n, 1)
    | Inr (Inl (Inl (d, n, rp, pp, depth, g))) \<Rightarrow> (size n, 1)
    | Inr (Inl (Inr (d, l, r, rp, depth, g))) \<Rightarrow> (size l, 3)
    | Inr (Inr (Inl (d, n, rp, depth, g))) \<Rightarrow> (size n, 1)
    | Inr (Inr (Inr (d, opn, f, as, rp, depth, g))) \<Rightarrow> (size_list size as, 0))")
    (auto simp: termination_simp)

declare writeExpr.simps [simp del] writeExprOther.simps [simp del]
  writeExprBinaryOp.simps [simp del] writeExprAs.simps [simp del]
  writeExprAssociativeOp.simps [simp del]

subsection \<open>Suspendible-call lowering\<close>

lemma size_MHS [termination_simp]:
  "size_option size (MHS n) < size n"
  by (cases n) auto

lemma size_exprOf_sub [termination_simp]:
  "x = LHS n \<or> x = MHS n \<or> x = RHS n \<Longrightarrow> exprOf x = Some e \<Longrightarrow> size e < size n"
  using size_exprOf [of x e] size_LHS [of n] size_MHS [of n] size_RHS [of n] by auto

lemma size_exprOf_arg [termination_simp]:
  "x \<in> set (Args n) \<Longrightarrow> exprOf (Some x) = Some e \<Longrightarrow> size e < size n"
proof -
  assume a: "x \<in> set (Args n)" and b: "exprOf (Some x) = Some e"
  have "size x \<le> size_list size (Args n)"
    using a by (simp add: size_list_estimation')
  moreover have "size e < Suc (size x + 0)"
    using b by (rule size_exprOf_Some)
  ultimately show ?thesis
    using size_Args [of n] by simp
qed

text \<open>
  The four branches of the if-else chain at the end of \<^verbatim>\<open>writeCallSuspendibles\<close>, one
  for each call that the generator recognises: \<^verbatim>\<open>in.src.read_u8?()\<close>,
  \<^verbatim>\<open>in.dst.write?(x:...)\<close>, \<^verbatim>\<open>in.dst.write_u8?(x)\<close> and
  \<^verbatim>\<open>this.decode_header?(src:in.src)\<close>.
\<close>

definition hoistInSrcReadU8 :: "Expr \<Rightarrow> gen \<Rightarrow> error + gen" where
  "hoistInSrcReadU8 n g =
    (if tempW (perFunc g) > maxTemp then Inl TooManyTemporaryVariables
     else
       let temp = tempW (perFunc g);
           g = g\<lparr>perFunc := (perFunc g)\<lparr>tempW := tempW (perFunc g) + 1\<rparr>\<rparr>;
           g = writes (''if ('' @ aPrefix @ ''src->ri >= '' @ aPrefix @ ''src->wi) { status = ''
                 @ aPrefix @ ''src->closed ? puffs_'' @ pkgName g @ ''_error_unexpected_eof : puffs_''
                 @ pkgName g @ ''_status_short_read;'') g;
           g = (if public (perFunc g) \<and> suspendible (perFunc g)
                then writes ''goto cleanup0;'' g
                else writes ''return status;'' g);
           g = writes ''}\<newline>'' g
       in case writeCTypeName (MType n) tPrefix (showNat (unat temp)) g of
            Inl e \<Rightarrow> Inl e
          | Inr g \<Rightarrow>
              Inr (writes ('' = '' @ aPrefix @ ''src->ptr['' @ aPrefix @ ''src->ri++];\<newline>'') g))"

definition hoistInDstWrite :: "gen \<Rightarrow> error + gen" where
  "hoistInDstWrite g =
    (let g = writes (''if ('' @ aPrefix @ ''dst->closed) { status = puffs_'' @ pkgName g
                 @ ''_error_closed_for_writes;'') g;
         g = (if public (perFunc g) \<and> suspendible (perFunc g)
              then writes ''goto cleanup0;'' g
              else writes ''return status;'' g);
         g = writes ''}\<newline>'' g;
         g = writes (''if (('' @ aPrefix @ ''dst->len - '' @ aPrefix
                 @ ''dst->wi) < (sizeof(self->private_impl.f_stack) - v_s)) {'') g;
         g = writes (''status = puffs_'' @ pkgName g @ ''_status_short_write;'') g;
         g = (if public (perFunc g) \<and> suspendible (perFunc g)
              then writes ''goto cleanup0;'' g
              else writes ''return status;'' g);
         g = writes ''}\<newline>'' g;
         g = writes (''memmove('' @ ''a_dst->ptr + a_dst->wi,''
                 @ ''self->private_impl.f_stack + v_s,''
                 @ ''sizeof(self->private_impl.f_stack) - v_s);\<newline>'') g;
         g = writes ''a_dst->wi += sizeof(self->private_impl.f_stack) - v_s;\<newline>'' g
     in Inr g)"

definition hoistInDstWriteU8 :: "deps \<Rightarrow> Expr \<Rightarrow> 32 word \<Rightarrow> gen \<Rightarrow> error + gen" where
  "hoistInDstWriteU8 d n depth g =
    (let g = writes (''if ('' @ aPrefix @ ''dst->wi >= '' @ aPrefix
                 @ ''dst->len) { status = puffs_'' @ pkgName g @ ''_status_short_write;'') g;
         g = (if public (perFunc g) \<and> suspendible (perFunc g)
              then writes ''goto cleanup0;'' g
              else writes ''return status;'' g);
         g = writes ''}\<newline>'' g;
         g = writes (aPrefix @ ''dst->ptr['' @ aPrefix @ ''dst->wi++] = '') g
     in case Args n of [] \<Rightarrow> Inl BadAST | a # as \<Rightarrow>
        (case argValueOf a of None \<Rightarrow> Inl BadAST | Some x \<Rightarrow>
         (case writeExpr d x replaceCallSuspendibles parenthesesMandatory depth g of
            Inl e \<Rightarrow> Inl e
          | Inr g \<Rightarrow> Inr (writes '';\<newline>'' g))))"

definition hoistThisDecodeHeader :: "gen \<Rightarrow> error + gen" where
  "hoistThisDecodeHeader g =
    (case funk (perFunc g) of None \<Rightarrow> Inl BadAST | Some fn \<Rightarrow>
       Inr (writes ''if (status) { goto cleanup0; }\<newline>''
             (writes (''status = puffs_'' @ pkgName g @ ''_''
                 @ String (tm g) (Receiver fn) @ ''_decode_header(self, '' @ aPrefix
                 @ ''src);\<newline>'') g)))"

function writeCallSuspendibles :: "deps \<Rightarrow> Expr \<Rightarrow> 32 word \<Rightarrow> gen \<Rightarrow> error + gen" where
  "writeCallSuspendibles d n depth g =
    (if \<not> CallSuspendible n then
       (if depth > MaxExprDepth d then Inl ExpressionRecursionDepthTooLarge
        else
          case forEach (\<lambda>x. case exprOf x of
                               Some e \<Rightarrow> writeCallSuspendibles d e (depth + 1)
                             | None \<Rightarrow> Inr)
                 [LHS n, MHS n, RHS n] g of
            Inl e \<Rightarrow> Inl e
          | Inr g \<Rightarrow>
              forEach (\<lambda>x. case exprOf (Some x) of
                             Some e \<Rightarrow> writeCallSuspendibles d e (depth + 1)
                           | None \<Rightarrow> Inr)
                (Args n) g)
     else
       (case isInSrcReadU8 (tm g) n of Inl e \<Rightarrow> Inl e
        | Inr True \<Rightarrow> hoistInSrcReadU8 n g
        | Inr False \<Rightarrow>
       (case isInDst (tm g) n KeyWrite of Inl e \<Rightarrow> Inl e
        | Inr True \<Rightarrow> hoistInDstWrite g
        | Inr False \<Rightarrow>
       (case isInDst (tm g) n KeyWriteU8 of Inl e \<Rightarrow> Inl e
        | Inr True \<Rightarrow> hoistInDstWriteU8 d n depth g
        | Inr False \<Rightarrow>
       (case isThisDecodeHeader (tm g) n of Inl e \<Rightarrow> Inl e
        | Inr True \<Rightarrow> hoistThisDecodeHeader g
        | Inr False \<Rightarrow> Inl CannotConvertCall)))))"
  by pat_completeness auto
termination
  by (relation "measure (\<lambda>(d, n, depth, g). size n)") (auto simp: termination_simp)

declare writeCallSuspendibles.simps [simp del]

definition writeSuspendibles :: "deps \<Rightarrow> Expr \<Rightarrow> 32 word \<Rightarrow> gen \<Rightarrow> error + gen" where
  "writeSuspendibles d n depth g =
    (if \<not> Expr.Suspendible n then Inr g else writeCallSuspendibles d n depth g)"

subsection \<open>Statement lowering\<close>

lemma size_list_member:
  "x \<in> set xs \<Longrightarrow> f x < size_list f xs"
  by (induction xs) auto

lemma size_BodyIfTrue [termination_simp]:
  "size_list size (BodyIfTrue n) < size n"
  by (cases n) auto

lemma size_BodyIfFalse [termination_simp]:
  "size_list size (BodyIfFalse n) < size n"
  by (cases n) auto

lemma size_ElseIf [termination_simp]:
  "size_option size (ElseIf n) < size n"
  by (cases n) auto

lemma size_ElseIf_Some [termination_simp]:
  "ElseIf n = Some m \<Longrightarrow> size m < size n"
  using size_ElseIf [of n] by simp

lemma size_Body [termination_simp]:
  "size_list size (While.Body n) < size n"
  by (cases n) auto

lemma size_in_BodyIfTrue [termination_simp]:
  "x \<in> set (BodyIfTrue n) \<Longrightarrow> size x < size n"
  using size_BodyIfTrue [of n] size_list_estimation' [of x "BodyIfTrue n" "size x" size] by simp

lemma size_in_BodyIfFalse [termination_simp]:
  "x \<in> set (BodyIfFalse n) \<Longrightarrow> size x < size n"
  using size_BodyIfFalse [of n] size_list_estimation' [of x "BodyIfFalse n" "size x" size] by simp

lemma size_in_Body [termination_simp]:
  "x \<in> set (While.Body n) \<Longrightarrow> size x < size n"
  using size_Body [of n] size_list_estimation' [of x "While.Body n" "size x" size] by simp

text \<open>
  \<^verbatim>\<open>writeVars\<close> declares the locals of a block; \<open>writeVarsIf\<close> is its inner loop
  \<^verbatim>\<open>for o := o.If(); o != nil; o = o.ElseIf()\<close> along an else-if chain.
\<close>

function writeVars :: "deps \<Rightarrow> Node list \<Rightarrow> 32 word \<Rightarrow> gen \<Rightarrow> error + gen"
  and writeVarsIf :: "deps \<Rightarrow> If option \<Rightarrow> 32 word \<Rightarrow> gen \<Rightarrow> error + gen"
where
  "writeVars d block depth g =
    (if depth > MaxBodyDepth d then Inl BodyRecursionDepthTooLarge
     else
       forEach (\<lambda>x g.
         (case x of
            KIf i \<Rightarrow> writeVarsIf d (Some i) (depth + 1) g
          | KVar nm ty v \<Rightarrow>
             (case writeCTypeName ty vPrefix (String (tm g) nm) g of
                Inl e \<Rightarrow> Inl e
              | Inr g \<Rightarrow> Inr (writes '';\<newline>'' g))
          | KWhile w \<Rightarrow> writeVars d (While.Body w) (depth + 1) g
          | _ \<Rightarrow> Inr g)) block g)"
| "writeVarsIf d None depth g = Inr g"
| "writeVarsIf d (Some i) depth g =
    (case writeVars d (BodyIfTrue i) depth g of
       Inl e \<Rightarrow> Inl e
     | Inr g \<Rightarrow>
        (case writeVars d (BodyIfFalse i) depth g of
           Inl e \<Rightarrow> Inl e
         | Inr g \<Rightarrow> writeVarsIf d (ElseIf i) depth g))"
  by pat_completeness auto
termination
  by (relation "measure (\<lambda>x. case x of
        Inl (d, block, depth, g) \<Rightarrow> size_list size block
      | Inr (d, i, depth, g) \<Rightarrow> size_option size i)")
     (auto simp: termination_simp dest!: size_list_member [where f = size])

declare writeVars.simps(1) [simp del]

text \<open>The loop \<^verbatim>\<open>for ; nCloseCurly > 0; nCloseCurly--\<close> that closes an if chain.\<close>

fun closeCurlies :: "nat \<Rightarrow> gen \<Rightarrow> gen" where
  "closeCurlies 0 g = g"
| "closeCurlies (Suc nCloseCurly) g = closeCurlies nCloseCurly (writes ''}\<newline>'' g)"

definition maxCloseCurly :: nat where
  "maxCloseCurly = 1000"

text \<open>
  \<^verbatim>\<open>writeStatement\<close>; \<open>writeIf\<close> is the loop of its \<^verbatim>\<open>KIf\<close> case along the else-if
  chain, with the loop variables \<^verbatim>\<open>first\<close> and \<^verbatim>\<open>nCloseCurly\<close>, and closes the
  braces where the Go loop breaks.
\<close>

function writeStatement :: "deps \<Rightarrow> Node \<Rightarrow> 32 word \<Rightarrow> gen \<Rightarrow> error + gen"
  and writeIf :: "deps \<Rightarrow> If \<Rightarrow> bool \<Rightarrow> nat \<Rightarrow> 32 word \<Rightarrow> gen \<Rightarrow> error + gen"
where
  "writeStatement d n depth g =
    (if depth > MaxBodyDepth d then Inl BodyRecursionDepthTooLarge
     else
       (case n of
          KAssert \<Rightarrow> Inr g
        | KAssign lhs operator rhs \<Rightarrow>
           (case writeSuspendibles d lhs (depth + 1) g of Inl e \<Rightarrow> Inl e | Inr g \<Rightarrow>
           (case writeSuspendibles d rhs (depth + 1) g of Inl e \<Rightarrow> Inl e | Inr g \<Rightarrow>
           (case writeExpr d lhs replaceCallSuspendibles parenthesesMandatory (depth + 1) g of
              Inl e \<Rightarrow> Inl e | Inr g \<Rightarrow>
           (case writeExpr d rhs replaceCallSuspendibles parenthesesMandatory (depth + 1)
                   (writes (cOpNamesAt (0xFF AND Key operator)) g) of
              Inl e \<Rightarrow> Inl e | Inr g \<Rightarrow> Inr (writes '';\<newline>'' g)))))
        | KExpr x \<Rightarrow>
           (case writeSuspendibles d x (depth + 1) g of Inl e \<Rightarrow> Inl e | Inr g \<Rightarrow>
              if CallSuspendible x then Inr g else Inl NotACallSuspendible)
        | KIf i \<Rightarrow> writeIf d i True 1 (depth + 1) g
        | KJump keyword target \<Rightarrow>
           (case jumpTarget target g of Inl e \<Rightarrow> Inl e | Inr (jt, g) \<Rightarrow>
              Inr (writes (''goto label_'' @ showNat (unat jt) @ ''_''
                     @ (if Key keyword = KeyBreak then ''break'' else ''continue'')
                     @ '';\<newline>'') g))
        | KReturn keyword message \<Rightarrow>
           (let ret = (if keyword = zeroID then ''puffs_'' @ pkgName g @ ''_status_ok''
                       else (case statusMap g message of Some s \<Rightarrow> name s | None \<Rightarrow> []))
            in if \<not> suspendible (perFunc g) then Inr (writes ''return;\<newline>'' g)
               else if public (perFunc g)
                 then Inr (writes (''status = '' @ ret @ ''; goto cleanup0;\<newline>'') g)
               else Inr (writes (''return '' @ ret @ '';\<newline>'') g))
        | KVar nm ty v \<Rightarrow>
           (case (case v of None \<Rightarrow> Inr g | Some x \<Rightarrow> writeSuspendibles d x (depth + 1) g) of
              Inl e \<Rightarrow> Inl e
            | Inr g \<Rightarrow>
               (if Key (Decorator ty) = KeyOpenBracket then
                  (if v \<noteq> None then Inl ArrayInitializersTODO
                   else Inr (writes '';\<newline>''
                          (writes (''for (size_t i = 0; i < '' @ showBig (ArrayLength ty)
                             @ ''; i++) { '' @ vPrefix @ String (tm g) nm @ ''[i] = 0; }\<newline>'') g)))
                else
                  (case (case v of
                           None \<Rightarrow> Inr (writeb CHR ''0'' (writes (vPrefix @ String (tm g) nm @ '' = '') g))
                         | Some x \<Rightarrow>
                             writeExpr d x replaceCallSuspendibles parenthesesMandatory 0
                               (writes (vPrefix @ String (tm g) nm @ '' = '') g)) of
                     Inl e \<Rightarrow> Inl e
                   | Inr g \<Rightarrow> Inr (writes '';\<newline>'' g))))
        | KWhile w \<Rightarrow>
           (case (if HasContinue w then
                    (case jumpTarget (Addr w) g of Inl e \<Rightarrow> Inl e | Inr (jt, g) \<Rightarrow>
                       Inr (writes (''label_'' @ showNat (unat jt) @ ''_continue:;\<newline>'') g))
                  else Inr g) of
              Inl e \<Rightarrow> Inl e
            | Inr g \<Rightarrow>
           (case writeExpr d (While.Condition w) replaceCallSuspendibles parenthesesOptional 0
                   (writes ''while ('' g) of
              Inl e \<Rightarrow> Inl e
            | Inr g \<Rightarrow>
           (case forEach (\<lambda>x. writeStatement d x (depth + 1)) (While.Body w)
                   (writes '') {\<newline>'' g) of
              Inl e \<Rightarrow> Inl e
            | Inr g \<Rightarrow>
               (let g = writes ''}\<newline>'' g in
                if HasBreak w then
                  (case jumpTarget (Addr w) g of Inl e \<Rightarrow> Inl e | Inr (jt, g) \<Rightarrow>
                     Inr (writes (''label_'' @ showNat (unat jt) @ ''_break:;\<newline>'') g))
                else Inr g))))
        | _ \<Rightarrow> Inl UnrecognizedKindForWriteStatement))"
| "writeIf d n first nCloseCurly depth g =
    (case (if Expr.Suspendible (If.Condition n) then
             (case (if \<not> first then
                      (if nCloseCurly = maxCloseCurly then Inl TooManyNestedIfs
                       else Inr (nCloseCurly + 1, writeb CHR ''{'' g))
                    else Inr (nCloseCurly, g)) of
                Inl e \<Rightarrow> Inl e
              | Inr (nCloseCurly, g) \<Rightarrow>
                 (case writeSuspendibles d (If.Condition n) depth g of
                    Inl e \<Rightarrow> Inl e
                  | Inr g \<Rightarrow> Inr (nCloseCurly, g)))
           else Inr (nCloseCurly, g)) of
       Inl e \<Rightarrow> Inl e
     | Inr (nCloseCurly, g) \<Rightarrow>
    (case writeExpr d (If.Condition n) replaceCallSuspendibles parenthesesOptional 0
            (writes ''if ('' g) of
       Inl e \<Rightarrow> Inl e
     | Inr g \<Rightarrow>
    (case forEach (\<lambda>x. writeStatement d x depth) (BodyIfTrue n) (writes '') {\<newline>'' g) of
       Inl e \<Rightarrow> Inl e
     | Inr g \<Rightarrow>
        (if length (BodyIfFalse n) > 0 then
           (case forEach (\<lambda>x. writeStatement d x depth) (BodyIfFalse n)
                   (writes ''} else {'' g) of
              Inl e \<Rightarrow> Inl e
            | Inr g \<Rightarrow> Inr (closeCurlies nCloseCurly g))
         else
           (case ElseIf n of
              None \<Rightarrow> Inr (closeCurlies nCloseCurly g)
            | Some m \<Rightarrow> writeIf d m False nCloseCurly depth (writes ''} else '' g))))))"
  by pat_completeness auto
termination
  by (relation "measure (\<lambda>x. case x of
        Inl (d, n, depth, g) \<Rightarrow> size n
      | Inr (d, i, first, nCloseCurly, depth, g) \<Rightarrow> size i)")
     (auto simp: termination_simp)

declare writeStatement.simps [simp del] writeIf.simps [simp del]

subsection \<open>Structs, constructors and destructors\<close>

definition writeStruct :: "Struct \<Rightarrow> gen \<Rightarrow> error + gen" where
  \<open>writeStruct n g =
    (let structName = String (tm g) (Struct.Name n);
         g = writes ''typedef struct {\<newline>'' g;
         g = writes ''// Do not access the private_impl's fields directly. There is no API/ABI\<newline>'' g;
         g = writes ''// compatibility or safety guarantee if you do so. Instead, use the\<newline>'' g;
         g = writes (''// puffs_'' @ pkgName g @ ''_'' @ structName @ ''_etc functions.\<newline>'') g;
         g = writes ''//\<newline>'' g;
         g = writes ''// In C++, these fields would be "private", but C does not support that.\<newline>'' g;
         g = writes ''//\<newline>'' g;
         g = writes ''// It is a struct, not a struct*, so that it can be stack allocated.\<newline>'' g;
         g = writes ''struct {\<newline>'' g;
         g = (if Struct.Suspendible n
              then writes ''uint32_t magic;\<newline>'' (writes (''puffs_'' @ pkgName g @ ''_status status;\<newline>'') g)
              else g)
     in case forEach (\<lambda>x g.
               (case writeCTypeName (Field.XType x) fPrefix (String (tm g) (Field.Name x)) g of
                  Inl e \<Rightarrow> Inl e
                | Inr g \<Rightarrow> Inr (writes '';\<newline>'' g))) (Fields n) g of
          Inl e \<Rightarrow> Inl e
        | Inr g \<Rightarrow>
            Inr (writes (''} private_impl;\<newline> } puffs_'' @ pkgName g @ ''_'' @ structName
                   @ '';\<newline>\<newline>'') g))\<close>

definition writeCtorSignature :: "Struct \<Rightarrow> bool \<Rightarrow> bool \<Rightarrow> gen \<Rightarrow> gen" where
  \<open>writeCtorSignature n pub ctor g =
    (let structName = String (tm g) (Struct.Name n);
         ctorName = (if ctor then ''constructor'' else ''destructor'');
         g = (if ctor \<and> pub then
                writes ''// Pass PUFFS_VERSION and 0 for puffs_version and for_internal_use_only.\<newline>''
               (writes ''//\<newline>''
               (writes (''// It should be called before any other puffs_'' @ pkgName g @ ''_''
                          @ structName @ ''_* function.\<newline>'')
               (writes ''//\<newline>''
               (writes (''// puffs_'' @ pkgName g @ ''_'' @ structName @ ''_'' @ ctorName
                          @ '' is a constructor function.\<newline>'') g))))
              else g);
         g = writes (''void puffs_'' @ pkgName g @ ''_'' @ structName @ ''_'' @ ctorName
                       @ ''(puffs_'' @ pkgName g @ ''_'' @ structName @ '' *self'') g;
         g = (if ctor then writes '', uint32_t puffs_version, uint32_t for_internal_use_only'' g
              else g)
     in writes '')'' g)\<close>

definition writeCtorPrototype :: "Struct \<Rightarrow> gen \<Rightarrow> error + gen" where
  \<open>writeCtorPrototype n g =
    (if \<not> Struct.Suspendible n then Inr g
     else forEach (\<lambda>ctor g. Inr (writes '';\<newline>\<newline>'' (writeCtorSignature n (Struct.Public n) ctor g)))
            [True, False] g)\<close>

definition writeCtorImpl :: "Struct \<Rightarrow> gen \<Rightarrow> error + gen" where
  \<open>writeCtorImpl n g =
    (if \<not> Struct.Suspendible n then Inr g
     else forEach (\<lambda>ctor g.
       (let g = writeCtorSignature n False ctor g;
            g = writes ''{\<newline>'' g;
            g = writes ''if (!self) { return; }\<newline>'' g;
            g = (if ctor then
                   (let g = writes ''if (puffs_version != PUFFS_VERSION) {\<newline>'' g;
                        g = writes (''self->private_impl.status = puffs_'' @ pkgName g
                                      @ ''_error_bad_version;\<newline>'') g;
                        g = writes ''return;\<newline>'' g;
                        g = writes ''}\<newline>'' g;
                        g = writes (''if (for_internal_use_only != PUFFS_ALREADY_ZEROED) {''
                                      @ ''memset(self, 0, sizeof(*self)); }\<newline>'') g;
                        g = writes ''self->private_impl.magic = PUFFS_MAGIC;\<newline>'' g
                    in fold (\<lambda>f g.
                         (case DefaultValue f of
                            None \<Rightarrow> g
                          | Some dv \<Rightarrow>
                              writes (''self->private_impl.'' @ fPrefix @ String (tm g) (Field.Name f)
                                        @ '' = '' @ showBig dv @ '';\<newline>'') g)) (Fields n) g)
                 else g);
            g = fold (\<lambda>f g.
                  (let x = Field.XType f in
                   if Inner x \<noteq> None then g
                   else if structMap g (TypeExpr.Name x) = None then g
                   else if ctor then
                     writes (''puffs_'' @ pkgName g @ ''_'' @ String (tm g) (TypeExpr.Name x)
                               @ ''_constructor(&self->private_impl.'' @ fPrefix
                               @ String (tm g) (Field.Name f) @ '',''
                               @ ''PUFFS_VERSION, PUFFS_ALREADY_ZEROED);\<newline>'') g
                   else
                     writes (''puffs_'' @ pkgName g @ ''_'' @ String (tm g) (TypeExpr.Name x)
                               @ ''_destructor(&self->private_impl.'' @ fPrefix
                               @ String (tm g) (Field.Name f) @ '');\<newline>'') g)) (Fields n) g
        in Inr (writes ''}\<newline>\<newline>'' g))) [True, False] g)\<close>

subsection \<open>Function prototypes and bodies\<close>

text \<open>The loop over the inputs of a signature, with its loop variable \<^verbatim>\<open>comma\<close>.\<close>

fun writeFuncSignatureArgs :: "bool \<Rightarrow> Field list \<Rightarrow> gen \<Rightarrow> error + gen" where
  "writeFuncSignatureArgs comma [] g = Inr g"
| "writeFuncSignatureArgs comma (x # xs) g =
    (case writeCTypeName (Field.XType x) aPrefix (String (tm g) (Field.Name x))
            (if comma then writeb CHR '','' g else g) of
       Inl e \<Rightarrow> Inl e
     | Inr g \<Rightarrow> writeFuncSignatureArgs True xs g)"

definition writeFuncSignature :: "Func \<Rightarrow> gen \<Rightarrow> error + gen" where
  \<open>writeFuncSignature n g =
    (let g = (if Func.Suspendible n then writes (''puffs_'' @ pkgName g @ ''_status'') g
              else writes ''void'' g);
         g = writes ('' puffs_'' @ pkgName g) g;
         g = (if Receiver n \<noteq> zeroID then writes (''_'' @ String (tm g) (Receiver n)) g else g);
         g = writes (''_'' @ String (tm g) (Func.Name n) @ ''('') g;
         g = (if Receiver n \<noteq> zeroID
              then writes (''puffs_'' @ pkgName g @ ''_'' @ String (tm g) (Receiver n) @ '' *self'') g
              else g)
     in case writeFuncSignatureArgs (Receiver n \<noteq> zeroID) (In n) g of
          Inl e \<Rightarrow> Inl e
        | Inr g \<Rightarrow> Inr (writes '')'' g))\<close>

definition writeFuncPrototype :: "Func \<Rightarrow> gen \<Rightarrow> error + gen" where
  \<open>writeFuncPrototype n g =
    (case writeFuncSignature n g of
       Inl e \<Rightarrow> Inl e
     | Inr g \<Rightarrow> Inr (writes '';\<newline>\<newline>'' g))\<close>

text \<open>
  The checks that \<^verbatim>\<open>writeFuncImplArgChecks\<close> collects for one input: \<open>argBounds\<close>
  is its array \<^verbatim>\<open>bounds\<close> after the two loops that fill and prune it.
\<close>

definition argBounds :: "TypeExpr \<Rightarrow> int option \<times> int option" where
  "argBounds oTyp =
    (let b0 = (case fst (Bounds oTyp) of Some (Some cv) \<Rightarrow> Some cv | _ \<Rightarrow> None);
         b1 = (case snd (Bounds oTyp) of Some (Some cv) \<Rightarrow> Some cv | _ \<Rightarrow> None);
         key = Key (TypeExpr.Name oTyp)
     in if key < 256 then
          (let ntb = numTypeBoundsAt key in
           (if b0 \<noteq> None \<and> fst ntb \<noteq> None \<and> b0 = fst ntb then None else b0,
            if b1 \<noteq> None \<and> snd ntb \<noteq> None \<and> b1 = snd ntb then None else b1))
        else (b0, b1))"

definition argChecks :: "gen \<Rightarrow> Field \<Rightarrow> string list" where
  "argChecks g x =
    (let oTyp = Field.XType x in
     if Key (Decorator oTyp) \<noteq> KeyPtr \<and> \<not> IsRefined oTyp then []
     else if Key (Decorator oTyp) = KeyPtr then [''!'' @ aPrefix @ String (tm g) (Field.Name x)]
     else if IsRefined oTyp then
       (case fst (argBounds oTyp) of
          None \<Rightarrow> []
        | Some b \<Rightarrow> [aPrefix @ String (tm g) (Field.Name x) @ '' < '' @ showInt b])
       @ (case snd (argBounds oTyp) of
          None \<Rightarrow> []
        | Some b \<Rightarrow> [aPrefix @ String (tm g) (Field.Name x) @ '' > '' @ showInt b])
     else [])"

text \<open>The loop that writes the checks, separated by \<^verbatim>\<open>" || "\<close>.\<close>

fun writeChecks :: "bool \<Rightarrow> string list \<Rightarrow> gen \<Rightarrow> gen" where
  "writeChecks first [] g = g"
| "writeChecks first (c # cs) g =
    writeChecks False cs (writes c (if first then g else writes '' || '' g))"

definition writeFuncImplArgChecks :: "Func \<Rightarrow> gen \<Rightarrow> error + gen" where
  \<open>writeFuncImplArgChecks n g =
    (let checks = concat (map (argChecks g) (In n)) in
     if length checks = 0 then Inr g
     else
       (let g = writes ''if ('' g;
            g = writeChecks True checks g;
            g = writes '') {'' g;
            g = (if Func.Suspendible n
                 then writes (''status = puffs_'' @ pkgName g @ ''_error_bad_argument; goto cleanup0;'') g
                 else if Receiver n \<noteq> zeroID
                 then writes (''self->private_impl.status = puffs_'' @ pkgName g
                                @ ''_error_bad_argument; return;'') g
                 else writes ''return;'' g)
        in Inr (writes ''}\<newline>'' g)))\<close>

text \<open>
  \<^verbatim>\<open>writeFuncImpl\<close> in parts. \<open>writeFuncImplPrologue\<close> is its block that checks the
  previous status and the \<^verbatim>\<open>self\<close> argument, \<open>writeFuncImplEpilogue\<close> its block that
  writes the return of a suspendible function, \<open>writeFuncImplBody\<close> the function up to
  its last statement, and \<open>writeFuncImpl\<close> adds that last statement, the check that the
  two cursors of the temporaries agree.
\<close>

definition writeFuncImplPrologue :: "Func \<Rightarrow> gen \<Rightarrow> gen" where
  \<open>writeFuncImplPrologue n g =
    (let g = (if Func.Public n then
                (let g = g\<lparr>perFunc := (perFunc g)\<lparr>public := True\<rparr>\<rparr> in
                 if Receiver n \<noteq> zeroID then
                   writes ''}\<newline>''
                     ((if Func.Suspendible n
                       then writes (''return puffs_'' @ pkgName g @ ''_error_bad_receiver;'')
                       else writes ''return;'')
                      (writes ''if (!self) {\<newline>'' g))
                 else g)
              else g)
     in if Func.Suspendible n then
          (let g = g\<lparr>perFunc := (perFunc g)\<lparr>suspendible := True\<rparr>\<rparr>;
               g = writes (''puffs_'' @ pkgName g @ ''_status status = '') g;
               g = (if Receiver n \<noteq> zeroID then
                      (let g = writes ''self->private_impl.status;\<newline>'' g in
                       if Func.Public n then writes ''if (status & 1) { return status; }'' g
                       else g)
                    else writes (''puffs_'' @ pkgName g @ ''_status_ok;\<newline>'') g)
           in if Func.Public n then
                writes (''if (self->private_impl.magic != PUFFS_MAGIC) {''
                          @ ''status = puffs_'' @ pkgName g
                          @ ''_error_constructor_not_called; goto cleanup0; }\<newline>'') g
              else g)
        else if Receiver n \<noteq> zeroID \<and> Func.Public n then
          writes (''if (self->private_impl.magic != PUFFS_MAGIC) {''
                    @ ''self->private_impl.status = puffs_'' @ pkgName g
                    @ ''_error_constructor_not_called; return; }\<newline>'')
            (writes ''if (self->private_impl.status & 1) { return; }'' g)
        else g)\<close>

definition writeFuncImplEpilogue :: "gen \<Rightarrow> gen" where
  \<open>writeFuncImplEpilogue g =
    (if suspendible (perFunc g) then
       writes ''return status;\<newline>''
         (if public (perFunc g)
          then writes ''cleanup0: self->private_impl.status = status;\<newline>'' g
          else g)
     else g)\<close>

definition writeFuncImplBody :: "deps \<Rightarrow> Func \<Rightarrow> gen \<Rightarrow> error + gen" where
  \<open>writeFuncImplBody d n g =
    (let g = g\<lparr>perFunc := \<lparr>funk = Some n, jumpTargets = [], tempW = 0, tempR = 0,
                            public = False, suspendible = False\<rparr>\<rparr>
     in case writeFuncSignature n g of Inl e \<Rightarrow> Inl e | Inr g \<Rightarrow>
       (let g = writes ''{\<newline>'' g;
            g = writeFuncImplPrologue n g
        in case (if Func.Public n then writeFuncImplArgChecks n g else Inr g) of
             Inl e \<Rightarrow> Inl e
           | Inr g \<Rightarrow>
          (case writeVars d (Func.Body n) 0 (writes ''\<newline>'' g) of
             Inl e \<Rightarrow> Inl e
           | Inr g \<Rightarrow>
          (case forEach (\<lambda>x. writeStatement d x 0) (Func.Body n) (writes ''\<newline>'' g) of
             Inl e \<Rightarrow> Inl e
           | Inr g \<Rightarrow>
              Inr (writes ''}\<newline>\<newline>'' (writeFuncImplEpilogue (writes ''\<newline>'' g)))))))\<close>

definition writeFuncImpl :: "deps \<Rightarrow> Func \<Rightarrow> gen \<Rightarrow> error + gen" where
  "writeFuncImpl d n g =
    (case writeFuncImplBody d n g of
       Inl e \<Rightarrow> Inl e
     | Inr g \<Rightarrow>
        if tempW (perFunc g) \<noteq> tempR (perFunc g) then Inl TemporaryCountOutOfSync
        else Inr g)"

subsection \<open>The header and the implementation\<close>

text \<open>
  \<^verbatim>\<open>strings.ToUpper\<close> on the bytes of an ASCII string (a package name is a
  lowercase ASCII identifier).
\<close>

definition toUpper :: "string \<Rightarrow> string" where
  "toUpper s = map (\<lambda>c. if CHR ''a'' \<le> c \<and> c \<le> CHR ''z''
                          then char_of (of_char c - (32 :: nat)) else c) s"

text \<open>
  The two loops of \<^verbatim>\<open>genHeader\<close> that write the entries of the status enum: one
  line \<^verbatim>\<open>NAME = %d%s,\<close> for each status, with the number \<^verbatim>\<open>-2*i\<close> or
  \<^verbatim>\<open>-2*(userDefinedStatusBase+i)\<close> and the nudge \<^verbatim>\<open>+1\<close> of an error.
\<close>

definition builtInEnumEntry :: "gen \<Rightarrow> nat \<times> string \<Rightarrow> string" where
  "builtInEnumEntry g = (\<lambda>(i, s).
     (let nudge = (if prefix ''error '' s then ''+1'' else [])
      in cName g s @ '' = '' @ showInt (- 2 * int i) @ nudge @ '',\<newline>''))"

definition userEnumEntry :: "nat \<times> status \<Rightarrow> string" where
  "userEnumEntry = (\<lambda>(i, s).
     (let nudge = (if isError s then ''+1'' else [])
      in name s @ '' = '' @ showInt (- 2 * (int userDefinedStatusBase + int i)) @ nudge
           @ '',\<newline>''))"

text \<open>
  \<^verbatim>\<open>genHeader\<close> in parts: \<open>genHeaderPrelude\<close> writes the include guard, the base
  header and the comments that open the status enum, \<open>genHeaderEnum\<close> is the two loops
  that write the enum's entries, and \<open>genHeader\<close> goes on with the rest.
\<close>

definition genHeaderPrelude :: "deps \<Rightarrow> gen \<Rightarrow> gen" where
  \<open>genHeaderPrelude d g =
    (let includeGuard = ''PUFFS_'' @ toUpper (pkgName g) @ ''_H'';
         g = writes (''#ifndef '' @ includeGuard @ ''\<newline>#define '' @ includeGuard @ ''\<newline>\<newline>'') g;
         g = writes ''// Code generated by puffs-gen-c. DO NOT EDIT.\<newline>\<newline>'' g;
         g = writes (baseHeader d) g;
         g = writes ''\<newline>#ifdef __cplusplus\<newline>extern "C" {\<newline>#endif\<newline>\<newline>'' g;
         g = writes ''// ---------------- Status Codes\<newline>\<newline>'' g;
         g = writes ''// Status codes are non-positive integers.\<newline>'' g;
         g = writes ''//\<newline>'' g;
         g = writes ''// The least significant bit indicates a non-recoverable status code: an error.\<newline>'' g
     in writes ''typedef enum {\<newline>'' g)\<close>

definition genHeaderEnum :: "gen \<Rightarrow> gen" where
  "genHeaderEnum g =
    (let g = fold (\<lambda>x g. writes (builtInEnumEntry g x) g) (enumerate 0 builtInStatuses) g
     in fold (\<lambda>x g. writes (userEnumEntry x) g) (enumerate 0 (statusList g)) g)"

definition genHeader :: "deps \<Rightarrow> gen \<Rightarrow> error + gen" where
  \<open>genHeader d g =
    (let includeGuard = ''PUFFS_'' @ toUpper (pkgName g) @ ''_H'';
         g = genHeaderPrelude d g;
         g = genHeaderEnum g;
         g = writes (''} puffs_'' @ pkgName g @ ''_status;\<newline>\<newline>'') g;
         g = writes (''bool puffs_'' @ pkgName g @ ''_status_is_error(puffs_'' @ pkgName g
                       @ ''_status s);\<newline>\<newline>'') g;
         g = writes (''const char* puffs_'' @ pkgName g @ ''_status_string(puffs_'' @ pkgName g
                       @ ''_status s);\<newline>\<newline>'') g;
         g = writes ''// ---------------- Structs\<newline>\<newline>'' g
     in case forEach writeStruct (structList g) g of Inl e \<Rightarrow> Inl e | Inr g \<Rightarrow>
       (case forEach (\<lambda>n g. if Struct.Public n then writeCtorPrototype n g else Inr g)
               (structList g)
               (writes ''// ---------------- Public Constructor and Destructor Prototypes\<newline>\<newline>'' g) of
          Inl e \<Rightarrow> Inl e
        | Inr g \<Rightarrow>
       (case forEachFunc pubOnly writeFuncPrototype
               (writes ''// ---------------- Public Function Prototypes\<newline>\<newline>'' g) of
          Inl e \<Rightarrow> Inl e
        | Inr g \<Rightarrow>
           Inr (writes (''#endif  // '' @ includeGuard @ ''\<newline>\<newline>'')
                 (writes ''\<newline>#ifdef __cplusplus\<newline>}  // extern "C"\<newline>#endif\<newline>\<newline>'' g)))))\<close>

text \<open>The entry of the strings table for a built-in status, and for a user-defined one.\<close>

definition builtInStringEntry :: "gen \<Rightarrow> string \<Rightarrow> string" where
  "builtInStringEntry g s =
    (let s = (if prefix ''status '' s then drop (length ''status '') s
              else if prefix ''error '' s then drop (length ''error '') s
              else s);
         s = pkgName g @ '': '' @ s
     in quote s @ '','')"

definition userStringEntry :: "gen \<Rightarrow> status \<Rightarrow> string" where
  "userStringEntry g s = quote (pkgName g @ '': '' @ msg s) @ '',''"

text \<open>
  \<^verbatim>\<open>genImpl\<close> in parts: \<open>genImplPrelude\<close> writes the base implementation and what
  opens the table of the status strings, \<open>genImplStrings\<close> is the two loops that write
  the table's entries, and \<open>genImpl\<close> goes on with the rest.
\<close>

definition genImplPrelude :: "deps \<Rightarrow> gen \<Rightarrow> gen" where
  \<open>genImplPrelude d g =
    (let g = writes (baseImpl d) g;
         g = writes ''\<newline>'' g;
         g = writes ''// ---------------- Status Codes Implementations\<newline>\<newline>'' g;
         g = writes (''bool puffs_'' @ pkgName g @ ''_status_is_error(puffs_'' @ pkgName g
                       @ ''_status s) {'' @ ''return s & 1; }\<newline>\<newline>'') g
     in writes (''const char* puffs_'' @ pkgName g @ ''_status_strings[''
                  @ showNat (length builtInStatuses + length (statusList g))
                  @ ''] = {\<newline>'') g)\<close>

definition genImplStrings :: "gen \<Rightarrow> gen" where
  "genImplStrings g =
    (let g = fold (\<lambda>s g. writes (builtInStringEntry g s) g) builtInStatuses g
     in fold (\<lambda>s g. writes (userStringEntry g s) g) (statusList g) g)"

definition genImpl :: "deps \<Rightarrow> gen \<Rightarrow> error + gen" where
  \<open>genImpl d g =
    (let g = genImplPrelude d g;
         g = genImplStrings g;
         g = writes ''};\<newline>\<newline>'' g;
         g = writes (''const char* puffs_'' @ pkgName g @ ''_status_string(puffs_'' @ pkgName g
                       @ ''_status s) {\<newline>'') g;
         g = writes ''s = -(s >> 1); if (0 <= s) {\<newline>'' g;
         g = writes (''if (s < '' @ showNat (length builtInStatuses) @ '') { return puffs_''
                       @ pkgName g @ ''_status_strings[s]; }\<newline>'') g;
         g = writes (''s -= '' @ showInt (int userDefinedStatusBase - int (length builtInStatuses))
                       @ '';\<newline>'') g;
         g = writes (''if (('' @ showNat (length builtInStatuses) @ '' <= s) && (s < ''
                       @ showNat (length builtInStatuses + length (statusList g))
                       @ '')) { return puffs_'' @ pkgName g @ ''_status_strings[s]; }\<newline>'') g;
         g = writes (''}\<newline>return "'' @ pkgName g @ '': unknown status";\<newline>'') g;
         g = writes ''}\<newline>\<newline>'' g;
         g = writes ''// ---------------- Private Constructor and Destructor Prototypes\<newline>\<newline>'' g
     in case forEach (\<lambda>n g. if \<not> Struct.Public n then writeCtorPrototype n g else Inr g)
               (structList g) g of
          Inl e \<Rightarrow> Inl e
        | Inr g \<Rightarrow>
       (case forEachFunc priOnly writeFuncPrototype
               (writes ''// ---------------- Private Function Prototypes\<newline>\<newline>'' g) of
          Inl e \<Rightarrow> Inl e
        | Inr g \<Rightarrow>
          (let g = writes ''// ---------------- Constructor and Destructor Implementations\<newline>\<newline>'' g;
               g = writes ''// PUFFS_MAGIC is a magic number to check that constructors are called. It's\<newline>'' g;
               g = writes ''// not foolproof, given C doesn't automatically zero memory before use, but it\<newline>'' g;
               g = writes ''// should catch 99.99% of cases.\<newline>'' g;
               g = writes ''//\<newline>'' g;
               g = writes ''// Its (non-zero) value is arbitrary, based on md5sum("puffs").\<newline>'' g;
               g = writes ''#define PUFFS_MAGIC (0xCB3699CCU)\<newline>\<newline>'' g;
               g = writes ''// PUFFS_ALREADY_ZEROED is passed from a container struct's constructor to a\<newline>'' g;
               g = writes ''// containee struct's constructor when the container has already zeroed the\<newline>'' g;
               g = writes ''// containee's memory.\<newline>'' g;
               g = writes ''//\<newline>'' g;
               g = writes ''// Its (non-zero) value is arbitrary, based on md5sum("zeroed").\<newline>'' g;
               g = writes ''#define PUFFS_ALREADY_ZEROED (0x68602EF1U)\<newline>\<newline>'' g
           in case forEach writeCtorImpl (structList g) g of
                Inl e \<Rightarrow> Inl e
              | Inr g \<Rightarrow>
                  forEachFunc bothPubPri (writeFuncImpl d)
                    (writes ''// ---------------- Function Implementations\<newline>\<newline>'' g))))\<close>

text \<open>The structs of the files, in declaration order.\<close>

definition unsortedStructs :: "File list \<Rightarrow> Struct list" where
  "unsortedStructs fs =
    concat (map (\<lambda>file. concat (map (\<lambda>n. case n of KStruct x \<Rightarrow> [x] | _ \<Rightarrow> []) file)) fs)"

definition generate :: "deps \<Rightarrow> gen \<Rightarrow> error + gen" where
  \<open>generate d g =
    (let g = g\<lparr>statusMap := (\<lambda>k. None)\<rparr> in
     case forEachStatus bothPubPri gatherStatuses g of Inl e \<Rightarrow> Inl e | Inr g \<Rightarrow>
       (case TopologicalSortStructs d (unsortedStructs (files g)) of
          None \<Rightarrow> Inl CyclicalStructDefinitions
        | Some ss \<Rightarrow>
           (let g = g\<lparr>structList := ss\<rparr>;
                g = g\<lparr>structMap := fold (\<lambda>n m. m(Struct.Name n \<mapsto> n)) (structList g) (\<lambda>k. None)\<rparr>
            in case genHeader d g of Inl e \<Rightarrow> Inl e | Inr g \<Rightarrow>
                 genImpl d (writes ''// C HEADER ENDS HERE.\<newline>\<newline>'' g))))\<close>

text \<open>
  The generator as \<^verbatim>\<open>main\<close> runs it: on a fresh \<^verbatim>\<open>gen\<close> that holds the package
  name, the identifier table and the files, every other field being Go's zero value.
  The result is the text handed to the formatter, or the error.
\<close>

definition newGen :: "string \<Rightarrow> Map \<Rightarrow> File list \<Rightarrow> gen" where
  "newGen pkg tmap fs =
    \<lparr>buffer = [], pkgName = pkg, tm = tmap, files = fs, statusList = [],
     statusMap = (\<lambda>k. None), structList = [], structMap = (\<lambda>k. None),
     perFunc = \<lparr>funk = None, jumpTargets = [], tempW = 0, tempR = 0,
                public = False, suspendible = False\<rparr>\<rparr>"

definition run :: "deps \<Rightarrow> string \<Rightarrow> Map \<Rightarrow> File list \<Rightarrow> error + string" where
  "run d pkg tmap fs =
    (case generate d (newGen pkg tmap fs) of Inl e \<Rightarrow> Inl e | Inr g \<Rightarrow> Inr (buffer g))"

subsection \<open>Notions for the statements about the generator\<close>

text \<open>
  \<open>sameEnv g g'\<close>: the two states agree on what an emitter only reads. \<open>tempsOK\<close>:
  no temporary has been read that was not written, and at most \<open>maxTemp + 1\<close> have
  been written. \<open>step g g'\<close>: from \<open>g\<close> to \<open>g'\<close> the buffer was only appended to,
  its environment kept, and \<open>tempsOK\<close> kept.
\<close>

definition sameEnv :: "gen \<Rightarrow> gen \<Rightarrow> bool" where
  "sameEnv g g' \<longleftrightarrow>
    pkgName g' = pkgName g \<and> tm g' = tm g \<and> files g' = files g \<and>
    statusList g' = statusList g \<and> statusMap g' = statusMap g \<and>
    structList g' = structList g \<and> structMap g' = structMap g \<and>
    funk (perFunc g') = funk (perFunc g) \<and> public (perFunc g') = public (perFunc g) \<and>
    suspendible (perFunc g') = suspendible (perFunc g)"

definition tempsOK :: "gen \<Rightarrow> bool" where
  "tempsOK g \<longleftrightarrow>
    tempR (perFunc g) \<le> tempW (perFunc g) \<and> tempW (perFunc g) \<le> maxTemp + 1"

definition step :: "gen \<Rightarrow> gen \<Rightarrow> bool" where
  "step g g' \<longleftrightarrow>
    prefix (buffer g) (buffer g') \<and> sameEnv g g' \<and> (tempsOK g \<longrightarrow> tempsOK g')"

text \<open>
  \<open>grows g g'\<close>: from \<open>g\<close> to \<open>g'\<close> the buffer was only appended to, and what the
  collector gathered was kept; the scratch state of the current function may differ.
\<close>

definition grows :: "gen \<Rightarrow> gen \<Rightarrow> bool" where
  "grows g g' \<longleftrightarrow>
    prefix (buffer g) (buffer g') \<and>
    pkgName g' = pkgName g \<and> tm g' = tm g \<and> files g' = files g \<and>
    statusList g' = statusList g \<and> statusMap g' = statusMap g \<and>
    structList g' = structList g \<and> structMap g' = structMap g"






text \<open>
  The status declarations of the files, in declaration order; a message that is a
  quoted string literal, and what is between its quotes.
\<close>

definition statusDecls :: "File list \<Rightarrow> Status list" where
  "statusDecls fs =
    concat (map (\<lambda>file. concat (map (\<lambda>n. case n of KStatus x \<Rightarrow> [x] | _ \<Rightarrow> []) file)) fs)"

definition quotedLiteral :: "string \<Rightarrow> bool" where
  "quotedLiteral m \<longleftrightarrow> length m \<ge> 2 \<and> hd m = CHR 0x22 \<and> last m = CHR 0x22"

definition unquoted :: "string \<Rightarrow> string" where
  "unquoted m = butlast (tl m)"

text \<open>The functions of the files, in declaration order, and those of one visibility.\<close>

definition funcDecls :: "File list \<Rightarrow> Func list" where
  "funcDecls fs =
    concat (map (\<lambda>file. concat (map (\<lambda>n. case n of KFunc x \<Rightarrow> [x] | _ \<Rightarrow> []) file)) fs)"

subsection \<open>A package to run the generator on\<close>

text \<open>
  An identifier table with the names \<^verbatim>\<open>src\<close>, \<^verbatim>\<open>dst\<close>, \<^verbatim>\<open>decode_header\<close>, \<^verbatim>\<open>x\<close>,
  \<^verbatim>\<open>y\<close>, \<^verbatim>\<open>f\<close>, \<^verbatim>\<open>bar\<close>, \<^verbatim>\<open>p\<close> and the string literal \<^verbatim>\<open>"bad magic"\<close> at the
  user keys 300 to 308, and the collaborators with depth limits of 255, empty base
  texts and a topological sort that keeps the declaration order.
\<close>

definition userID :: "nat \<Rightarrow> ID" where
  "userID k = ID k False False False"

definition exNames :: "(nat \<times> string) list" where
  \<open>exNames =
    [(300, ''src''), (301, ''dst''), (302, ''decode_header''), (303, ''x''), (304, ''y''),
     (305, ''f''), (306, ''bar''), (307, ''p''), (308, [CHR 0x22] @ ''bad magic'' @ [CHR 0x22])]\<close>

definition exTm :: Map where
  "exTm =
    \<lparr>String = (\<lambda>i. case map_of exNames (Key i) of Some s \<Rightarrow> s | None \<Rightarrow> []),
     ByName = (\<lambda>s. case map_of (map (\<lambda>(k, s). (s, k)) exNames) s of
                       Some k \<Rightarrow> userID k | None \<Rightarrow> zeroID)\<rparr>"

definition exDeps :: deps where
  "exDeps =
    \<lparr>MaxBodyDepth = 255, MaxExprDepth = 255, baseHeader = [], baseImpl = [],
     TopologicalSortStructs = Some\<rparr>"

text \<open>
  The type \<^verbatim>\<open>u8\<close>, a local variable, the call \<^verbatim>\<open>in.src.read_u8?()\<close> as the parser
  and the type checker leave it, and the assignment of that call to a local variable.
\<close>

definition typeOf :: "Key \<Rightarrow> TypeExpr" where
  "typeOf k = TypeExpr zeroID (ID k False False False) None (None, None) False False None"

definition noType :: TypeExpr where
  "noType = TypeExpr zeroID zeroID None (None, None) False False None"

definition localVar :: "nat \<Rightarrow> Expr" where
  "localVar k = Expr zeroID (userID k) None None None [] False False False None (typeOf KeyU8)"

definition inSrcReadU8 :: Expr where
  "inSrcReadU8 =
    Expr (ID KeyOpenParen False False False) zeroID
      (Some (KExpr (Expr (ID KeyDot False False False) (ID KeyReadU8 False False False)
        (Some (KExpr (Expr (ID KeyDot False False False) (userID 300)
          (Some (KExpr (Expr zeroID (ID KeyIn False False False) None None None []
             False False False None noType)))
          None None [] False False False None (typeOf KeyBuf1))))
        None None [] False False False None noType)))
      None None [] True True False None (typeOf KeyU8)"

definition assignReadU8 :: "nat \<Rightarrow> Node" where
  "assignReadU8 k = KAssign (localVar k) (ID KeyEq False False False) inSrcReadU8"

definition srcArg :: Field where
  "srcArg = \<lparr>Field.Name = userID 300, XType = typeOf KeyBuf1, DefaultValue = None\<rparr>"

text \<open>A function \<^verbatim>\<open>f\<close> with the argument \<^verbatim>\<open>src\<close> and a given body.\<close>

definition exFunc :: "bool \<Rightarrow> bool \<Rightarrow> ID \<Rightarrow> Node list \<Rightarrow> Func" where
  "exFunc pub susp recv body =
    \<lparr>Receiver = recv, Func.Name = userID 305, In = [srcArg], Func.Body = body,
     Func.Public = pub, Func.Suspendible = susp\<rparr>"



text \<open>
  The status that the collector makes of a declaration whose message is a quoted
  literal: its mangled name is the name mangler applied to \<^verbatim>\<open>error\<close> or \<^verbatim>\<open>status\<close>
  (as the keyword of the declaration says), a space and the message without its quotes.
\<close>

definition gatheredStatus :: "gen \<Rightarrow> Status \<Rightarrow> status" where
  "gatheredStatus g st =
    \<lparr>name = cName g ((if Key (Keyword st) = KeyError then ''error '' else ''status '')
                      @ unquoted (String (tm g) (Message st))),
     msg = unquoted (String (tm g) (Message st)),
     isError = (Key (Keyword st) = KeyError)\<rparr>"

text \<open>
  The declaration of the error \<^verbatim>\<open>"bad magic"\<close>, and a declaration of an error whose
  message is the identifier \<^verbatim>\<open>x\<close>, which is no string literal.
\<close>

definition exStatus :: TopLevelDecl where
  "exStatus = KStatus \<lparr>Keyword = ID KeyError False False False, Message = userID 308,
                       Status.Public = True\<rparr>"

definition exBadStatus :: TopLevelDecl where
  "exBadStatus = KStatus \<lparr>Keyword = ID KeyError False False False, Message = userID 303,
                          Status.Public = True\<rparr>"







definition readsFunc :: "nat \<Rightarrow> Func" where
  "readsFunc k = exFunc False False zeroID (replicate k (assignReadU8 303))"

section \<open>Properties\<close>

subsection \<open>Writing to the buffer changes the buffer only\<close>

lemma writes_sel [simp]:
  "buffer (writes s g) = buffer g @ s"
  "pkgName (writes s g) = pkgName g"
  "tm (writes s g) = tm g"
  "files (writes s g) = files g"
  "statusList (writes s g) = statusList g"
  "statusMap (writes s g) = statusMap g"
  "structList (writes s g) = structList g"
  "structMap (writes s g) = structMap g"
  "perFunc (writes s g) = perFunc g"
  by (simp_all add: writes_def)

lemma writeb_sel [simp]:
  "buffer (writeb c g) = buffer g @ [c]"
  "pkgName (writeb c g) = pkgName g"
  "tm (writeb c g) = tm g"
  "files (writeb c g) = files g"
  "statusList (writeb c g) = statusList g"
  "statusMap (writeb c g) = statusMap g"
  "structList (writeb c g) = structList g"
  "structMap (writeb c g) = structMap g"
  "perFunc (writeb c g) = perFunc g"
  by (simp_all add: writeb_def)

subsection \<open>Every emitter only appends to the buffer and keeps the temporaries in order\<close>

lemma step_refl [simp, intro]: "step g g"
  by (simp add: step_def sameEnv_def)

lemma step_trans: "step g h \<Longrightarrow> step h k \<Longrightarrow> step g k"
  by (auto simp: step_def sameEnv_def)

lemma step_writes [intro]: "step g0 g \<Longrightarrow> step g0 (writes s g)"
  by (auto simp: step_def sameEnv_def tempsOK_def writes_def)

lemma step_writeb [intro]: "step g0 g \<Longrightarrow> step g0 (writeb c g)"
  by (auto simp: step_def sameEnv_def tempsOK_def writeb_def)

lemma word_inc_le: "(a :: 32 word) < b \<Longrightarrow> a + 1 \<le> b"
  by (simp add: inc_le)

lemma step_tempR:
  "step g0 g \<Longrightarrow> tempR (perFunc g) < tempW (perFunc g)
    \<Longrightarrow> step g0 (g\<lparr>perFunc := (perFunc g)\<lparr>tempR := tempR (perFunc g) + 1\<rparr>\<rparr>)"
  by (auto simp: step_def sameEnv_def tempsOK_def inc_le)

lemma word_le_inc:
  assumes "(w :: 32 word) \<le> 10000" and "r \<le> w"
  shows "r \<le> w + 1 \<and> w + 1 \<le> 10000 + 1"
proof -
  have w: "unat w \<le> 10000"
    using assms(1) by (simp add: word_le_nat_alt)
  have "unat (w + 1) = (unat w + 1) mod 2 ^ 32"
    by (simp add: unat_word_ariths)
  then have s: "unat (w + 1) = unat w + 1"
    using w by simp
  have "unat r \<le> unat w"
    using assms(2) by (simp add: word_le_nat_alt)
  then show ?thesis
    using w s by (simp add: word_le_nat_alt)
qed

lemma step_tempW:
  "step g0 g \<Longrightarrow> \<not> tempW (perFunc g) > maxTemp
    \<Longrightarrow> step g0 (g\<lparr>perFunc := (perFunc g)\<lparr>tempW := tempW (perFunc g) + 1\<rparr>\<rparr>)"
  using word_le_inc [of "tempW (perFunc g)" "tempR (perFunc g)"]
  by (auto simp: step_def sameEnv_def tempsOK_def maxTemp_def not_less)


lemma step_writeArrayLengths: "step g0 g \<Longrightarrow> step g0 (writeArrayLengths t g)"
  by (induction t g rule: writeArrayLengths.induct) auto

lemma step_writeCTypeName:
  "step g0 g \<Longrightarrow> writeCTypeName n p v g = Inr g' \<Longrightarrow> step g0 g'"
  by (auto simp: writeCTypeName_def Let_def
      split: sum.splits prod.splits option.splits if_splits
      intro!: step_writeArrayLengths step_writes step_writeb)

lemma step_if [intro]: "step g0 a \<Longrightarrow> step g0 b \<Longrightarrow> step g0 (if c then a else b)"
  by simp

lemmas step_unfold = step_def sameEnv_def tempsOK_def writes_def writeb_def

lemma step_tempR_writes:
  "step g0 g \<Longrightarrow> tempR (perFunc g) < tempW (perFunc g)
    \<Longrightarrow> step g0 ((writes s g)\<lparr>perFunc := (perFunc g)\<lparr>tempR := tempR (perFunc g) + 1\<rparr>\<rparr>)"
  by (auto simp: step_def sameEnv_def tempsOK_def writes_def inc_le)

lemma step_forEach:
  assumes "\<And>x s s'. x \<in> set xs \<Longrightarrow> f x s = Inr s' \<Longrightarrow> step g0 s \<Longrightarrow> step g0 s'"
  shows "forEach f xs g = Inr g' \<Longrightarrow> step g0 g \<Longrightarrow> step g0 g'"
  using assms
proof (induction xs arbitrary: g)
  case Nil
  then show ?case by simp
next
  case (Cons x xs)
  from Cons.prems(1) obtain g1 where a: "f x g = Inr g1" and b: "forEach f xs g1 = Inr g'"
    by (auto split: sum.splits)
  have "step g0 g1"
    using Cons.prems(3) [of x g g1] a Cons.prems(2) by simp
  then show ?case
    by (rule Cons.IH [OF b]) (use Cons.prems(3) in \<open>meson list.set_intros\<close>)
qed

lemma size_Expr_pos: "0 < size (n :: Expr)"
  by (cases n) simp

lemma step_writeExprOther_cond:
  assumes H: "\<And>e rp pp depth g g'. size e < size n \<Longrightarrow> writeExpr d e rp pp depth g = Inr g'
    \<Longrightarrow> step g0 g \<Longrightarrow> step g0 g'"
  shows "writeExprOther d n rp depth g = Inr g' \<Longrightarrow> step g0 g \<Longrightarrow> step g0 g'"
  apply (subst (asm) writeExprOther.simps)
  apply (simp split: if_splits option.splits bool.splits sum.splits list.splits)
       apply (metis H step_writes step_writeb size_exprOf_LHS size_exprOf_RHS size_exprOf_LHS_LHS
      size_hd_Args)+
  done

lemma step_writeExprAs_cond:
  assumes H: "\<And>rp pp depth g g'. writeExpr d e rp pp depth g = Inr g'
    \<Longrightarrow> step g0 g \<Longrightarrow> step g0 g'"
  shows "writeExprAs d e ty rp depth g = Inr g' \<Longrightarrow> step g0 g \<Longrightarrow> step g0 g'"
  apply (subst (asm) writeExprAs.simps)
  apply (simp split: sum.splits)
  apply (metis H step_writes step_writeCTypeName)
  done

lemma step_writeExprBinaryOp_cond:
  assumes H: "\<And>e rp pp depth g g'. size e < size n \<Longrightarrow> writeExpr d e rp pp depth g = Inr g'
    \<Longrightarrow> step g0 g \<Longrightarrow> step g0 g'"
  shows "writeExprBinaryOp d n rp pp depth g = Inr g' \<Longrightarrow> step g0 g \<Longrightarrow> step g0 g'"
  apply (subst (asm) writeExprBinaryOp.simps)
  apply (simp split: if_splits option.splits sum.splits)
    apply (metis H step_writeExprAs_cond step_writes step_writeb size_exprOf_LHS size_exprOf_RHS)+
  done

lemma step_writeExprAssociativeArgs_cond:
  assumes H: "\<And>a e rp pp depth g g'. a \<in> set as \<Longrightarrow> exprOf (Some a) = Some e
    \<Longrightarrow> writeExpr d e rp pp depth g = Inr g' \<Longrightarrow> step g0 g \<Longrightarrow> step g0 g'"
  shows "writeExprAssociativeArgs d opn fs as rp depth g = Inr g' \<Longrightarrow> step g0 g \<Longrightarrow> step g0 g'"
  using H
proof (induction as arbitrary: fs g)
  case Nil
  then show ?case by simp
next
  case (Cons a as)
  from Cons.prems(1) obtain e g1 where e: "exprOf (Some a) = Some e"
    and a: "writeExpr d e rp parenthesesMandatory depth (if fs then g else writes opn g) = Inr g1"
    and b: "writeExprAssociativeArgs d opn False as rp depth g1 = Inr g'"
    by (auto split: option.splits sum.splits)
  have "step g0 (if fs then g else writes opn g)"
    using Cons.prems(2) by (simp add: step_writes)
  then have "step g0 g1"
    using Cons.prems(3) [of a e, OF _ e a] by simp
  then show ?case
    by (rule Cons.IH [OF b]) (use Cons.prems(3) in \<open>meson list.set_intros\<close>)
qed

lemma step_writeExpr_size:
  "size n \<le> k \<Longrightarrow> writeExpr d n rp pp depth g = Inr g' \<Longrightarrow> step g0 g \<Longrightarrow> step g0 g'"
proof (induction k arbitrary: n rp pp depth g g')
  case 0
  then show ?case using size_Expr_pos [of n] by simp
next
  case (Suc k)
  have H: "writeExpr d e rp pp depth g = Inr g' \<Longrightarrow> step g0 g \<Longrightarrow> step g0 g'"
    if "size e < size n" for e rp pp depth g g'
    using Suc.IH [of e] that Suc.prems(1) by simp
  have other: "writeExprOther d n rp depth g = Inr g' \<Longrightarrow> step g0 g \<Longrightarrow> step g0 g'"
    for rp depth g g'
    using step_writeExprOther_cond [of n d g0] H by blast
  have bin: "writeExprBinaryOp d n rp pp depth g = Inr g' \<Longrightarrow> step g0 g \<Longrightarrow> step g0 g'"
    for rp pp depth g g'
    using step_writeExprBinaryOp_cond [of n d g0] H by blast
  have assoc: "writeExprAssociativeOp d n rp depth g = Inr g' \<Longrightarrow> step g0 g \<Longrightarrow> step g0 g'"
    for rp depth g g'
    apply (subst (asm) writeExprAssociativeOp.simps)
    apply (erule step_writeExprAssociativeArgs_cond [rotated])
     apply assumption
    apply (metis H size_exprOf_arg)
    done
  show ?case
  proof (cases "rp = replaceCallSuspendibles \<and> CallSuspendible n")
    case True
    from Suc.prems(2) have "tempR (perFunc g) < tempW (perFunc g)"
      and "g' = (writes (tPrefix @ showNat (unat (tempR (perFunc g)))) g)
                 \<lparr>perFunc := (perFunc g)\<lparr>tempR := tempR (perFunc g) + 1\<rparr>\<rparr>"
      using True by (subst (asm) writeExpr.simps, simp split: if_splits add: not_le)+
    then show ?thesis
      using step_tempR_writes [OF Suc.prems(3)] by simp
  next
    case False
    from Suc.prems(2) show ?thesis
      apply (subst (asm) writeExpr.simps)
      using False Suc.prems(3) other bin assoc
      apply (cases "ConstValue n")
       apply (auto split: if_splits intro: step_writes)
      done
  qed
qed

lemma step_writeExpr:
  "writeExpr d n rp pp depth g = Inr g' \<Longrightarrow> step g0 g \<Longrightarrow> step g0 g'"
  using step_writeExpr_size [of n "size n"] by simp

lemma step_hoistInSrcReadU8:
  "hoistInSrcReadU8 n g = Inr g' \<Longrightarrow> step g0 g \<Longrightarrow> step g0 g'"
proof -
  assume a: "hoistInSrcReadU8 n g = Inr g'" and st: "step g0 g"
  define g1 where "g1 = g\<lparr>perFunc := (perFunc g)\<lparr>tempW := tempW (perFunc g) + 1\<rparr>\<rparr>"
  from a have le: "\<not> tempW (perFunc g) > maxTemp"
    by (auto simp: hoistInSrcReadU8_def split: if_splits)
  have s1: "step g0 g1"
    unfolding g1_def using st le by (rule step_tempW)
  from a le obtain g2 g3 where "step g0 g2 \<longrightarrow> step g0 g2"
    and w: "writeCTypeName (MType n) tPrefix (showNat (unat (tempW (perFunc g)))) g2 = Inr g3"
    and g2: "g2 = writes ''}\<newline>'' (if public (perFunc g1) \<and> suspendible (perFunc g1)
        then writes ''goto cleanup0;'' (writes (''if ('' @ aPrefix @ ''src->ri >= '' @ aPrefix @ ''src->wi) { status = ''
                 @ aPrefix @ ''src->closed ? puffs_'' @ pkgName g1 @ ''_error_unexpected_eof : puffs_''
                 @ pkgName g1 @ ''_status_short_read;'') g1)
        else writes ''return status;'' (writes (''if ('' @ aPrefix @ ''src->ri >= '' @ aPrefix @ ''src->wi) { status = ''
                 @ aPrefix @ ''src->closed ? puffs_'' @ pkgName g1 @ ''_error_unexpected_eof : puffs_''
                 @ pkgName g1 @ ''_status_short_read;'') g1))"
    and g': "g' = writes ('' = '' @ aPrefix @ ''src->ptr['' @ aPrefix @ ''src->ri++];\<newline>'') g3"
    unfolding hoistInSrcReadU8_def Let_def g1_def
    by (auto split: if_splits sum.splits)
  have "step g0 g2"
    unfolding g2 using s1 by (auto intro!: step_writes step_if)
  then have "step g0 g3"
    using w step_writeCTypeName by blast
  then show ?thesis
    unfolding g' by (rule step_writes)
qed

lemma step_hoistInDstWrite:
  "hoistInDstWrite g = Inr g' \<Longrightarrow> step g0 g \<Longrightarrow> step g0 g'"
  unfolding hoistInDstWrite_def Let_def
  by (auto intro!: step_writes step_if)

lemma step_hoistInDstWriteU8:
  "hoistInDstWriteU8 d n depth g = Inr g' \<Longrightarrow> step g0 g \<Longrightarrow> step g0 g'"
  unfolding hoistInDstWriteU8_def Let_def
  apply (simp split: sum.splits list.splits option.splits)
  apply clarify
  apply (rule step_writes)
  apply (erule step_writeExpr)
  apply (auto intro!: step_writes step_if)
  done

lemma step_hoistThisDecodeHeader:
  "hoistThisDecodeHeader g = Inr g' \<Longrightarrow> step g0 g \<Longrightarrow> step g0 g'"
  unfolding hoistThisDecodeHeader_def
  by (auto split: option.splits intro!: step_writes)

lemma step_writeCallSuspendibles_size:
  "size n \<le> k \<Longrightarrow> writeCallSuspendibles d n depth g = Inr g' \<Longrightarrow> step g0 g \<Longrightarrow> step g0 g'"
proof (induction k arbitrary: n depth g g')
  case 0
  then show ?case using size_Expr_pos [of n] by simp
next
  case (Suc k)
  have H: "writeCallSuspendibles d e depth g = Inr g' \<Longrightarrow> step g0 g \<Longrightarrow> step g0 g'"
    if "size e < size n" for e depth g g'
    using Suc.IH [of e] that Suc.prems(1) by simp
  show ?case
  proof (cases "CallSuspendible n")
    case False
    from Suc.prems(2) obtain g1 where
      a: "forEach (\<lambda>x. case exprOf x of
                        Some e \<Rightarrow> writeCallSuspendibles d e (depth + 1)
                      | None \<Rightarrow> Inr) [LHS n, MHS n, RHS n] g = Inr g1"
      and b: "forEach (\<lambda>x. case exprOf (Some x) of
                        Some e \<Rightarrow> writeCallSuspendibles d e (depth + 1)
                      | None \<Rightarrow> Inr) (Args n) g1 = Inr g'"
      using False
      by (subst (asm) writeCallSuspendibles.simps) (simp split: if_splits sum.splits)
    have g1: "step g0 g1"
    proof (rule step_forEach [OF _ a Suc.prems(3)])
      fix x s s'
      assume "x \<in> set [LHS n, MHS n, RHS n]"
        and "(case exprOf x of Some e \<Rightarrow> writeCallSuspendibles d e (depth + 1) | None \<Rightarrow> Inr) s = Inr s'"
        and "step g0 s"
      then show "step g0 s'"
        using H size_exprOf_sub [of x n] by (cases "exprOf x") auto
    qed
    show ?thesis
    proof (rule step_forEach [OF _ b g1])
      fix x s s'
      assume "x \<in> set (Args n)"
        and "(case exprOf (Some x) of Some e \<Rightarrow> writeCallSuspendibles d e (depth + 1) | None \<Rightarrow> Inr) s = Inr s'"
        and "step g0 s"
      then show "step g0 s'"
        using H size_exprOf_arg [of x n] by (cases "exprOf (Some x)") auto
    qed
  next
    case True
    from Suc.prems(2) show ?thesis
      apply (subst (asm) writeCallSuspendibles.simps)
      apply (simp add: True split: sum.splits bool.splits)
         apply (metis Suc.prems(3) step_hoistInSrcReadU8 step_hoistInDstWrite
          step_hoistInDstWriteU8 step_hoistThisDecodeHeader)+
      done
  qed
qed

lemma step_writeCallSuspendibles:
  "writeCallSuspendibles d n depth g = Inr g' \<Longrightarrow> step g0 g \<Longrightarrow> step g0 g'"
  using step_writeCallSuspendibles_size [of n "size n"] by simp

lemma step_writeSuspendibles:
  "writeSuspendibles d n depth g = Inr g' \<Longrightarrow> step g0 g \<Longrightarrow> step g0 g'"
  using step_writeCallSuspendibles by (auto simp: writeSuspendibles_def split: if_splits)

lemma step_jumpTarget:
  "jumpTarget n g = Inr (jt, g') \<Longrightarrow> step g0 g \<Longrightarrow> step g0 g'"
  by (auto simp: jumpTarget_def Let_def step_def sameEnv_def tempsOK_def
      split: option.splits if_splits)

lemma size_KIf: "size (KIf i) = Suc (size i)"
  by simp

lemma size_KWhile: "size (KWhile w) = Suc (size w)"
  by simp

lemma step_writeVars_size:
  "(size_list size block \<le> k \<longrightarrow> writeVars d block depth g = Inr g' \<longrightarrow> step g0 g \<longrightarrow> step g0 g') \<and>
   (size_option size i \<le> k \<longrightarrow> writeVarsIf d i depth g = Inr g' \<longrightarrow> step g0 g \<longrightarrow> step g0 g')"
proof (induction k arbitrary: block i depth g g')
  case 0
  show ?case
  proof (intro conjI impI)
    assume "size_list size block \<le> 0" and a: "writeVars d block depth g = Inr g'" and "step g0 g"
    then have "block = []" by (cases block) auto
    then show "step g0 g'"
      using a \<open>step g0 g\<close> by (simp add: writeVars.simps split: if_splits)
  next
    assume "size_option size i \<le> 0" and a: "writeVarsIf d i depth g = Inr g'" and "step g0 g"
    then have "i = None" by (cases i) auto
    then show "step g0 g'"
      using a \<open>step g0 g\<close> by simp
  qed
next
  case (Suc k)
  have V: "writeVars d b dp s = Inr s' \<Longrightarrow> step g0 s \<Longrightarrow> step g0 s'"
    if "size_list size b \<le> k" for b dp s s'
    using Suc.IH [where block = b and depth = dp and g = s and g' = s'] that by blast
  have I: "writeVarsIf d j dp s = Inr s' \<Longrightarrow> step g0 s \<Longrightarrow> step g0 s'"
    if "size_option size j \<le> k" for j dp s s'
    using Suc.IH [where i = j and depth = dp and g = s and g' = s'] that by blast
  show ?case
  proof (intro conjI impI)
    assume sz: "size_list size block \<le> Suc k" and a: "writeVars d block depth g = Inr g'"
      and st: "step g0 g"
    from a have fe: "forEach (\<lambda>x g.
         (case x of
            KIf i \<Rightarrow> writeVarsIf d (Some i) (depth + 1) g
          | KVar nm ty v \<Rightarrow>
             (case writeCTypeName ty vPrefix (String (tm g) nm) g of
                Inl e \<Rightarrow> Inl e
              | Inr g \<Rightarrow> Inr (writes '';\<newline>'' g))
          | KWhile w \<Rightarrow> writeVars d (While.Body w) (depth + 1) g
          | _ \<Rightarrow> Inr g)) block g = Inr g'"
      by (subst (asm) writeVars.simps) (simp split: if_splits)
    show "step g0 g'"
    proof (rule step_forEach [OF _ fe st])
      fix x s s'
      assume x: "x \<in> set block" and st': "step g0 s"
        and e: "(case x of
            KIf i \<Rightarrow> writeVarsIf d (Some i) (depth + 1) s
          | KVar nm ty v \<Rightarrow>
             (case writeCTypeName ty vPrefix (String (tm s) nm) s of
                Inl e \<Rightarrow> Inl e
              | Inr g \<Rightarrow> Inr (writes '';\<newline>'' g))
          | KWhile w \<Rightarrow> writeVars d (While.Body w) (depth + 1) s
          | _ \<Rightarrow> Inr s) = Inr s'"
      have xs: "size x \<le> k"
        using size_list_member [OF x, of size] sz by simp
      show "step g0 s'"
      proof (cases x)
        case (KIf j)
        then show ?thesis using e st' xs I [of "Some j"] by simp
      next
        case (KVar nm ty v)
        then show ?thesis using e st' step_writeCTypeName [where g = s and ?g0.0 = g0]
          by (auto split: sum.splits intro!: step_writes)
      next
        case (KWhile w)
        then show ?thesis using e st' xs V [of "While.Body w"] size_Body [of w] by simp
      qed (use e st' in auto)
    qed
  next
    assume sz: "size_option size i \<le> Suc k" and a: "writeVarsIf d i depth g = Inr g'"
      and st: "step g0 g"
    show "step g0 g'"
    proof (cases i)
      case None
      then show ?thesis using a st by simp
    next
      case (Some j)
      from a Some obtain g1 g2 where
        a1: "writeVars d (BodyIfTrue j) depth g = Inr g1"
        and a2: "writeVars d (BodyIfFalse j) depth g1 = Inr g2"
        and a3: "writeVarsIf d (ElseIf j) depth g2 = Inr g'"
        by (auto split: sum.splits)
      have j: "size j \<le> k" using sz Some by simp
      have "step g0 g1"
        using V [OF _ a1 st] size_BodyIfTrue [of j] j by simp
      then have "step g0 g2"
        using V [OF _ a2] size_BodyIfFalse [of j] j by simp
      then show ?thesis
        using I [OF _ a3] size_ElseIf [of j] j by simp
    qed
  qed
qed

lemma step_writeVars:
  "writeVars d block depth g = Inr g' \<Longrightarrow> step g0 g \<Longrightarrow> step g0 g'"
  using step_writeVars_size [of block "size_list size block" d depth g g' g0] by simp

lemma step_closeCurlies: "step g0 g \<Longrightarrow> step g0 (closeCurlies k g)"
  by (induction k arbitrary: g) (auto intro: step_writes)

lemma step_writeStatement_size:
  "(size n < k \<longrightarrow> writeStatement d n depth g = Inr g' \<longrightarrow> step g0 g \<longrightarrow> step g0 g') \<and>
   (size i < k \<longrightarrow> writeIf d i first nc depth g = Inr g' \<longrightarrow> step g0 g \<longrightarrow> step g0 g')"
proof (induction k arbitrary: n i first nc depth g g')
  case 0
  show ?case by simp
next
  case (Suc k)
  have S: "writeStatement d x dp s = Inr s' \<Longrightarrow> step g0 s \<Longrightarrow> step g0 s'"
    if "size x < k" for x dp s s'
    using Suc.IH [where n = x and depth = dp and g = s and g' = s'] that by blast
  have I: "writeIf d j f c dp s = Inr s' \<Longrightarrow> step g0 s \<Longrightarrow> step g0 s'"
    if "size j < k" for j f c dp s s'
    using Suc.IH [where i = j and first = f and nc = c and depth = dp and g = s and g' = s'] that
    by blast
  have B: "forEach (\<lambda>x. writeStatement d x dp) xs s = Inr s' \<Longrightarrow> step g0 s \<Longrightarrow> step g0 s'"
    if "size_list size xs \<le> k" for xs dp s s'
  proof -
    assume fe: "forEach (\<lambda>x. writeStatement d x dp) xs s = Inr s'" and st: "step g0 s"
    show "step g0 s'"
    proof (rule step_forEach [OF _ fe st])
      fix x t t'
      assume "x \<in> set xs" and "writeStatement d x dp t = Inr t'" and "step g0 t"
      then show "step g0 t'"
        using S [of x dp t t'] size_list_member [of x xs size] that by simp
    qed
  qed
  show ?case
  proof (intro conjI impI)
    assume sz: "size n < Suc k" and a: "writeStatement d n depth g = Inr g'" and st: "step g0 g"
    note a' = a [unfolded writeStatement.simps [of d n depth g]]
    show "step g0 g'"
    proof (cases n)
      case KAssert
      then show ?thesis using a' st by (simp split: if_splits)
    next
      case (KAssign lhs operator rhs)
      then show ?thesis using a' st
        apply (simp split: if_splits sum.splits)
        apply (metis step_writeSuspendibles step_writeExpr step_writes)
        done
    next
      case (KExpr x)
      then show ?thesis using a' st
        apply (simp split: if_splits sum.splits)
        apply (metis step_writeSuspendibles)
        done
    next
      case (KIf j)
      then show ?thesis using a' st sz I [of j True 1 "depth + 1" g g']
        by (simp split: if_splits)
    next
      case (KJump keyword target)
      then show ?thesis using a' st
        apply (simp split: if_splits sum.splits prod.splits)
         apply (metis step_jumpTarget step_writes)+
        done
    next
      case (KReturn keyword message)
      then show ?thesis using a' st
        by (auto simp: Let_def split: if_splits intro!: step_writes)
    next
      case (KVar nm ty v)
      then show ?thesis using a' st
        apply (cases v)
         apply (simp_all split: if_splits sum.splits)
            apply (auto intro!: step_writes step_writeb elim: step_writeSuspendibles step_writeExpr)
        done
    next
      case (KWhile w)
      from a' KWhile obtain g1 g2 g3 where
        a1: "(if HasContinue w then
                (case jumpTarget (Addr w) g of Inl e \<Rightarrow> Inl e | Inr (jt, g) \<Rightarrow>
                   Inr (writes (''label_'' @ showNat (unat jt) @ ''_continue:;\<newline>'') g))
              else Inr g) = Inr g1"
        and a2: "writeExpr d (While.Condition w) replaceCallSuspendibles parenthesesOptional 0
                   (writes ''while ('' g1) = Inr g2"
        and a3: "forEach (\<lambda>x. writeStatement d x (depth + 1)) (While.Body w)
                   (writes '') {\<newline>'' g2) = Inr g3"
        and a4: "(if HasBreak w then
                  (case jumpTarget (Addr w) (writes ''}\<newline>'' g3) of Inl e \<Rightarrow> Inl e | Inr (jt, g) \<Rightarrow>
                     Inr (writes (''label_'' @ showNat (unat jt) @ ''_break:;\<newline>'') g))
                else Inr (writes ''}\<newline>'' g3)) = Inr g'"
        by (simp add: Let_def split: if_splits sum.splits)
      have s1: "step g0 g1"
        using a1 st by (auto split: if_splits sum.splits prod.splits
            intro!: step_writes elim: step_jumpTarget)
      have s2: "step g0 g2"
        using step_writeExpr [OF a2] s1 by (simp add: step_writes)
      have "size_list size (While.Body w) \<le> k"
        using sz KWhile size_Body [of w] by simp
      then have s3: "step g0 g3"
        using B [OF _ a3] s2 by (simp add: step_writes)
      show ?thesis
        using a4 s3 by (auto split: if_splits sum.splits prod.splits
            intro!: step_writes elim: step_jumpTarget)
    qed (use a' in \<open>simp_all split: if_splits\<close>)
  next
    assume sz: "size i < Suc k" and a: "writeIf d i first nc depth g = Inr g'" and st: "step g0 g"
    note a' = a [unfolded writeIf.simps [of d i first nc depth g]]
    from a' obtain nc1 g1 g2 g3 where
      a1: "(if Expr.Suspendible (If.Condition i) then
             (case (if \<not> first then
                      (if nc = maxCloseCurly then Inl TooManyNestedIfs
                       else Inr (nc + 1, writeb CHR ''{'' g))
                    else Inr (nc, g)) of
                Inl e \<Rightarrow> Inl e
              | Inr (nCloseCurly, g) \<Rightarrow>
                 (case writeSuspendibles d (If.Condition i) depth g of
                    Inl e \<Rightarrow> Inl e
                  | Inr g \<Rightarrow> Inr (nCloseCurly, g)))
           else Inr (nc, g)) = Inr (nc1, g1)"
      and a2: "writeExpr d (If.Condition i) replaceCallSuspendibles parenthesesOptional 0
            (writes ''if ('' g1) = Inr g2"
      and a3: "forEach (\<lambda>x. writeStatement d x depth) (BodyIfTrue i) (writes '') {\<newline>'' g2) = Inr g3"
      and a4: "(if length (BodyIfFalse i) > 0 then
           (case forEach (\<lambda>x. writeStatement d x depth) (BodyIfFalse i)
                   (writes ''} else {'' g3) of
              Inl e \<Rightarrow> Inl e
            | Inr g \<Rightarrow> Inr (closeCurlies nc1 g))
         else
           (case ElseIf i of
              None \<Rightarrow> Inr (closeCurlies nc1 g3)
            | Some m \<Rightarrow> writeIf d m False nc1 depth (writes ''} else '' g3))) = Inr g'"
      by (simp split: sum.splits prod.splits)
    have s1: "step g0 g1"
      using a1 st by (auto split: if_splits sum.splits prod.splits
          intro!: step_writeb elim: step_writeSuspendibles)
    have s2: "step g0 g2"
      using step_writeExpr [OF a2] s1 by (simp add: step_writes)
    have "size_list size (BodyIfTrue i) \<le> k"
      using sz size_BodyIfTrue [of i] by simp
    then have s3: "step g0 g3"
      using B [OF _ a3] s2 by (simp add: step_writes)
    show "step g0 g'"
    proof (cases "length (BodyIfFalse i) > 0")
      case True
      then obtain g4 where a5: "forEach (\<lambda>x. writeStatement d x depth) (BodyIfFalse i)
                   (writes ''} else {'' g3) = Inr g4" and g': "g' = closeCurlies nc1 g4"
        using a4 by (auto split: sum.splits)
      have "size_list size (BodyIfFalse i) \<le> k"
        using sz size_BodyIfFalse [of i] by simp
      then have "step g0 g4"
        using B [OF _ a5] s3 by (simp add: step_writes)
      then show ?thesis
        unfolding g' by (rule step_closeCurlies)
    next
      case False
      show ?thesis
      proof (cases "ElseIf i")
        case None
        then show ?thesis using a4 False s3 by (auto intro: step_closeCurlies)
      next
        case (Some m)
        then have "writeIf d m False nc1 depth (writes ''} else '' g3) = Inr g'"
          using a4 False by simp
        moreover have "size m < k"
          using sz size_ElseIf_Some [OF Some] by simp
        ultimately show ?thesis
          using I [of m False nc1 depth "writes ''} else '' g3" g'] s3 by (simp add: step_writes)
      qed
    qed
  qed
qed

lemma step_writeStatement:
  "writeStatement d n depth g = Inr g' \<Longrightarrow> step g0 g \<Longrightarrow> step g0 g'"
  using step_writeStatement_size [of n "Suc (size n)" d depth g g' g0] by simp

subsection \<open>Every emitter of a declaration only appends to the buffer\<close>

lemma grows_refl [simp, intro]: "grows g g"
  by (simp add: grows_def)

lemma grows_trans: "grows g h \<Longrightarrow> grows h k \<Longrightarrow> grows g k"
  by (auto simp: grows_def)

lemma step_grows: "step g g' \<Longrightarrow> grows g g'"
  by (simp add: step_def sameEnv_def grows_def)

lemma grows_of_step: "step g g' \<Longrightarrow> grows g0 g \<Longrightarrow> grows g0 g'"
  using grows_trans step_grows by blast

lemma grows_writes [intro]: "grows g0 g \<Longrightarrow> grows g0 (writes s g)"
  by (auto simp: grows_def)

lemma grows_writeb [intro]: "grows g0 g \<Longrightarrow> grows g0 (writeb c g)"
  by (auto simp: grows_def)

lemma grows_perFunc [intro]: "grows g0 g \<Longrightarrow> grows g0 (g\<lparr>perFunc := p\<rparr>)"
  by (auto simp: grows_def)

lemma grows_if [intro]: "grows g0 a \<Longrightarrow> grows g0 b \<Longrightarrow> grows g0 (if c then a else b)"
  by simp

lemmas sel_if = if_distrib [of pkgName] if_distrib [of tm] if_distrib [of perFunc]

lemma grows_forEach:
  assumes "\<And>x s s'. x \<in> set xs \<Longrightarrow> f x s = Inr s' \<Longrightarrow> grows g0 s \<Longrightarrow> grows g0 s'"
  shows "forEach f xs g = Inr g' \<Longrightarrow> grows g0 g \<Longrightarrow> grows g0 g'"
  using assms
proof (induction xs arbitrary: g)
  case Nil
  then show ?case by simp
next
  case (Cons x xs)
  from Cons.prems(1) obtain g1 where a: "f x g = Inr g1" and b: "forEach f xs g1 = Inr g'"
    by (auto split: sum.splits)
  have "grows g0 g1"
    using Cons.prems(3) [of x g g1] a Cons.prems(2) by simp
  then show ?case
    by (rule Cons.IH [OF b]) (use Cons.prems(3) in \<open>meson list.set_intros\<close>)
qed

lemma grows_fold:
  assumes "\<And>x s. grows g0 s \<Longrightarrow> grows g0 (f x s)"
  shows "grows g0 g \<Longrightarrow> grows g0 (fold f xs g)"
  using assms by (induction xs arbitrary: g) auto

lemma grows_writeCTypeName:
  "writeCTypeName n p v g = Inr g' \<Longrightarrow> grows g0 g \<Longrightarrow> grows g0 g'"
  using step_writeCTypeName [OF step_refl] grows_of_step by blast

lemma grows_writeStruct:
  "writeStruct n g = Inr g' \<Longrightarrow> grows g0 g \<Longrightarrow> grows g0 g'"
  unfolding writeStruct_def Let_def
  apply (clarsimp simp: sel_if split: sum.splits cong: if_cong)
  apply (rule grows_writes)
  apply (erule grows_forEach [rotated])
   apply (auto intro!: grows_writes grows_if)[1]
  apply (auto split: sum.splits intro!: grows_writes elim: grows_writeCTypeName)
  done

lemma grows_writeCtorSignature:
  "grows g0 g \<Longrightarrow> grows g0 (writeCtorSignature n pub ctor g)"
  unfolding writeCtorSignature_def Let_def
  by (auto intro!: grows_writes)

lemma grows_writeCtorPrototype:
  "writeCtorPrototype n g = Inr g' \<Longrightarrow> grows g0 g \<Longrightarrow> grows g0 g'"
  unfolding writeCtorPrototype_def
  by (auto split: if_splits sum.splits intro!: grows_writes grows_writeCtorSignature)

lemma grows_writeCtorImpl:
  "writeCtorImpl n g = Inr g' \<Longrightarrow> grows g0 g \<Longrightarrow> grows g0 g'"
  unfolding writeCtorImpl_def Let_def
  by (auto split: if_splits sum.splits option.splits
      intro!: grows_writes grows_writeCtorSignature grows_fold)

lemma grows_writeFuncSignatureArgs:
  "writeFuncSignatureArgs comma xs g = Inr g' \<Longrightarrow> grows g0 g \<Longrightarrow> grows g0 g'"
proof (induction xs arbitrary: comma g)
  case Nil
  then show ?case by simp
next
  case (Cons x xs)
  from Cons.prems(1) obtain g1 where
    a: "writeCTypeName (Field.XType x) aPrefix (String (tm g) (Field.Name x))
            (if comma then writeb CHR '','' g else g) = Inr g1"
    and b: "writeFuncSignatureArgs True xs g1 = Inr g'"
    by (auto split: sum.splits)
  have "grows g0 g1"
    using grows_writeCTypeName [OF a] Cons.prems(2) by (simp add: grows_writeb)
  then show ?case
    using Cons.IH [OF b] by simp
qed

lemma grows_writeFuncSignature:
  "writeFuncSignature n g = Inr g' \<Longrightarrow> grows g0 g \<Longrightarrow> grows g0 g'"
  unfolding writeFuncSignature_def Let_def
  apply (clarsimp simp: sel_if split: sum.splits cong: if_cong)
  apply (rule grows_writes)
  apply (erule grows_writeFuncSignatureArgs)
  apply (auto intro!: grows_writes grows_if)
  done

lemma grows_writeFuncPrototype:
  "writeFuncPrototype n g = Inr g' \<Longrightarrow> grows g0 g \<Longrightarrow> grows g0 g'"
  unfolding writeFuncPrototype_def
  by (auto split: sum.splits intro!: grows_writes elim: grows_writeFuncSignature)

lemma grows_writeChecks: "grows g0 g \<Longrightarrow> grows g0 (writeChecks first cs g)"
  by (induction cs arbitrary: first g) (auto intro!: grows_writes)

lemma grows_writeFuncImplArgChecks:
  "writeFuncImplArgChecks n g = Inr g' \<Longrightarrow> grows g0 g \<Longrightarrow> grows g0 g'"
  unfolding writeFuncImplArgChecks_def Let_def
  by (auto split: if_splits intro!: grows_writes grows_writeChecks)

lemma grows_writeFuncImplPrologue:
  "grows g0 g \<Longrightarrow> grows g0 (writeFuncImplPrologue n g)"
  unfolding writeFuncImplPrologue_def Let_def
  by (auto intro!: grows_writes grows_if grows_perFunc)

lemma temps_writeFuncImplPrologue:
  "tempW (perFunc (writeFuncImplPrologue n g)) = tempW (perFunc g)"
  "tempR (perFunc (writeFuncImplPrologue n g)) = tempR (perFunc g)"
  unfolding writeFuncImplPrologue_def Let_def
  by (simp_all add: sel_if cong: if_cong)

lemma grows_writeFuncImplEpilogue:
  "grows g0 g \<Longrightarrow> grows g0 (writeFuncImplEpilogue g)"
  unfolding writeFuncImplEpilogue_def
  by (auto intro!: grows_writes grows_if)

lemma perFunc_writeFuncImplEpilogue [simp]:
  "perFunc (writeFuncImplEpilogue g) = perFunc g"
  unfolding writeFuncImplEpilogue_def by simp

lemma step_forEach_writeStatement:
  "forEach (\<lambda>x. writeStatement d x depth) xs g = Inr g' \<Longrightarrow> step g0 g \<Longrightarrow> step g0 g'"
  by (erule step_forEach [rotated]) (auto elim: step_writeStatement)

lemma perFunc_writeArrayLengths [simp]: "perFunc (writeArrayLengths t g) = perFunc g"
  by (induction t g rule: writeArrayLengths.induct) auto

lemma perFunc_writeCTypeName:
  "writeCTypeName n p v g = Inr g' \<Longrightarrow> perFunc g' = perFunc g"
  by (auto simp: writeCTypeName_def Let_def split: sum.splits prod.splits option.splits if_splits)

lemma perFunc_writeFuncSignatureArgs:
  "writeFuncSignatureArgs comma xs g = Inr g' \<Longrightarrow> perFunc g' = perFunc g"
proof (induction xs arbitrary: comma g)
  case Nil
  then show ?case by simp
next
  case (Cons x xs)
  from Cons.prems(1) obtain g1 where
    a: "writeCTypeName (Field.XType x) aPrefix (String (tm g) (Field.Name x))
            (if comma then writeb CHR '','' g else g) = Inr g1"
    and b: "writeFuncSignatureArgs True xs g1 = Inr g'"
    by (auto split: sum.splits)
  show ?case
    using perFunc_writeCTypeName [OF a] Cons.IH [OF b] by (simp split: if_splits)
qed

lemma perFunc_writeFuncSignature:
  "writeFuncSignature n g = Inr g' \<Longrightarrow> perFunc g' = perFunc g"
  unfolding writeFuncSignature_def Let_def
  by (auto simp: sel_if split: sum.splits cong: if_cong dest!: perFunc_writeFuncSignatureArgs)

lemma perFunc_writeChecks [simp]: "perFunc (writeChecks first cs g) = perFunc g"
  by (induction cs arbitrary: first g) auto

lemma perFunc_writeFuncImplArgChecks:
  "writeFuncImplArgChecks n g = Inr g' \<Longrightarrow> perFunc g' = perFunc g"
  unfolding writeFuncImplArgChecks_def Let_def
  by (auto simp: sel_if split: if_splits cong: if_cong)

text \<open>
  What a function's emission leaves: the buffer grown, and the temporaries in order
  (none read before it was written, at most \<open>maxTemp + 1\<close> written).
\<close>

lemma writeFuncImplBody_props:
  assumes a: "writeFuncImplBody d n g = Inr g'"
  shows "grows g g' \<and> tempsOK g'"
proof -
  define gR where "gR = g\<lparr>perFunc := \<lparr>funk = Some n, jumpTargets = [], tempW = 0, tempR = 0,
                            public = False, suspendible = False\<rparr>\<rparr>"
  define gP where "gP = (\<lambda>gS. writeFuncImplPrologue n (writes ''{\<newline>'' gS))"
  from a obtain gS gA gV gB where
    s: "writeFuncSignature n gR = Inr gS"
    and c: "(if Func.Public n then writeFuncImplArgChecks n (gP gS) else Inr (gP gS)) = Inr gA"
    and v: "writeVars d (Func.Body n) 0 (writes ''\<newline>'' gA) = Inr gV"
    and b: "forEach (\<lambda>x. writeStatement d x 0) (Func.Body n) (writes ''\<newline>'' gV) = Inr gB"
    and g': "g' = writes ''}\<newline>\<newline>'' (writeFuncImplEpilogue (writes ''\<newline>'' gB))"
    unfolding writeFuncImplBody_def Let_def gR_def gP_def
    by (auto split: sum.splits)
  have "grows g gR"
    unfolding gR_def by (rule grows_perFunc) simp
  then have gS: "grows g gS"
    using grows_writeFuncSignature [OF s] by simp
  have tS: "tempW (perFunc gS) = 0 \<and> tempR (perFunc gS) = 0"
    using perFunc_writeFuncSignature [OF s] by (simp add: gR_def)
  have gPg: "grows g (gP gS)"
    unfolding gP_def using gS by (auto intro!: grows_writeFuncImplPrologue grows_writes)
  have tP: "tempW (perFunc (gP gS)) = 0 \<and> tempR (perFunc (gP gS)) = 0"
    unfolding gP_def using tS by (simp add: temps_writeFuncImplPrologue)
  have gA: "grows g gA"
    using c gPg grows_writeFuncImplArgChecks by (auto split: if_splits)
  have tA: "tempW (perFunc gA) = 0 \<and> tempR (perFunc gA) = 0"
    using c tP perFunc_writeFuncImplArgChecks by (auto split: if_splits)
  then have oA: "tempsOK (writes ''\<newline>'' gA)"
    by (simp add: tempsOK_def)
  have sV: "step (writes ''\<newline>'' gA) gV"
    using step_writeVars [OF v step_refl] .
  then have sV': "step (writes ''\<newline>'' gA) (writes ''\<newline>'' gV)"
    by (rule step_writes)
  have sB: "step (writes ''\<newline>'' gA) gB"
    using step_forEach_writeStatement [OF b sV'] .
  have "grows g (writes ''\<newline>'' gA)"
    using gA by (rule grows_writes)
  then have gB: "grows g gB"
    using grows_of_step [OF sB] by simp
  have oB: "tempsOK gB"
    using sB oA by (simp add: step_def)
  show ?thesis
    unfolding g' using gB oB
    by (auto intro!: grows_writes grows_writeFuncImplEpilogue simp: tempsOK_def)
qed

lemma writeFuncImpl_props:
  assumes a: "writeFuncImpl d n g = Inr g'"
  shows "grows g g' \<and> tempsOK g' \<and> tempW (perFunc g') = tempR (perFunc g')"
  using a writeFuncImplBody_props [of d n g g']
  by (auto simp: writeFuncImpl_def split: sum.splits if_splits)

lemma grows_writeFuncImpl:
  "writeFuncImpl d n g = Inr g' \<Longrightarrow> grows g0 g \<Longrightarrow> grows g0 g'"
  using writeFuncImpl_props grows_trans by blast

lemma forEach_append:
  "forEach f (xs @ ys) g = (case forEach f xs g of Inl e \<Rightarrow> Inl e | Inr g' \<Rightarrow> forEach f ys g')"
  by (induction xs arbitrary: g) (auto split: sum.splits)

lemma forEach_concat_map:
  assumes "\<And>x s. h x s = forEach f (sel x) s"
  shows "forEach h xs g = forEach f (concat (map sel xs)) g"
  by (induction xs arbitrary: g) (auto simp: assms forEach_append split: sum.splits)

lemma forEachFunc_eq:
  "forEachFunc v f g =
    forEach f (filter (\<lambda>fn. \<not> ((v = pubOnly \<and> \<not> Func.Public fn) \<or> (v = priOnly \<and> Func.Public fn)))
                 (funcDecls (files g))) g"
proof -
  let ?keep = "\<lambda>fn. \<not> ((v = pubOnly \<and> \<not> Func.Public fn) \<or> (v = priOnly \<and> Func.Public fn))"
  let ?sel = "\<lambda>n. case n of KFunc fn \<Rightarrow> (if ?keep fn then [fn] else []) | _ \<Rightarrow> []"
  have inner: "forEach (\<lambda>n.
      (case n of
         KFunc fn \<Rightarrow>
           if (v = pubOnly \<and> \<not> Func.Public fn) \<or> (v = priOnly \<and> Func.Public fn)
           then Inr
           else f fn
       | _ \<Rightarrow> Inr)) fl s = forEach f (concat (map ?sel fl)) s" for fl s
    by (rule forEach_concat_map) (auto split: TopLevelDecl.splits sum.splits)
  have "forEachFunc v f g = forEach f (concat (map (\<lambda>file. concat (map ?sel file)) (files g))) g"
    unfolding forEachFunc_def
    by (rule forEach_concat_map) (rule inner)
  moreover have "concat (map (\<lambda>file. concat (map ?sel file)) fs) = filter ?keep (funcDecls fs)" for fs
    unfolding funcDecls_def
    by (induction fs) (auto simp: filter_concat comp_def split: TopLevelDecl.splits intro!: arg_cong [where f = concat] map_cong)
  ultimately show ?thesis by simp
qed

subsection \<open>The two cursors of the temporaries\<close>

text \<open>
  C8. A function whose emission completes leaves the write cursor and the read cursor
  of the temporaries equal; when the emission of its body leaves them different,
  \<^verbatim>\<open>writeFuncImpl\<close> fails with the internal error "temporary variable count out of
  sync"; replacing a suspendible call by its temporary when no written temporary is
  left unread (\<open>tempR \<ge> tempW\<close>) is that same error; and a statement that is emitted
  from a state with the cursors in order leaves them in order.
\<close>

theorem temporaries_in_sync:
  "(writeFuncImpl d n g = Inr g' \<longrightarrow> tempW (perFunc g') = tempR (perFunc g')) \<and>
   (writeFuncImplBody d n g = Inr g1 \<and> tempW (perFunc g1) \<noteq> tempR (perFunc g1)
      \<longrightarrow> writeFuncImpl d n g = Inl TemporaryCountOutOfSync) \<and>
   (CallSuspendible e \<and> \<not> depth > MaxExprDepth d \<and> tempR (perFunc g) \<ge> tempW (perFunc g)
      \<longrightarrow> writeExpr d e replaceCallSuspendibles pp depth g = Inl TemporaryCountOutOfSync) \<and>
   (writeStatement d x depth g = Inr g2 \<and> tempsOK g
      \<longrightarrow> tempR (perFunc g2) \<le> tempW (perFunc g2))"
proof (intro conjI impI)
  assume "writeFuncImpl d n g = Inr g'"
  then show "tempW (perFunc g') = tempR (perFunc g')"
    using writeFuncImpl_props by blast
next
  assume "writeFuncImplBody d n g = Inr g1 \<and> tempW (perFunc g1) \<noteq> tempR (perFunc g1)"
  then show "writeFuncImpl d n g = Inl TemporaryCountOutOfSync"
    by (simp add: writeFuncImpl_def)
next
  assume "CallSuspendible e \<and> \<not> depth > MaxExprDepth d \<and> tempR (perFunc g) \<ge> tempW (perFunc g)"
  then show "writeExpr d e replaceCallSuspendibles pp depth g = Inl TemporaryCountOutOfSync"
    by (subst writeExpr.simps) simp
next
  assume "writeStatement d x depth g = Inr g2 \<and> tempsOK g"
  then show "tempR (perFunc g2) \<le> tempW (perFunc g2)"
    using step_writeStatement [of d x depth g g2 g] by (simp add: step_def tempsOK_def)
qed

theorem temporaries_in_sync_witness:
  "tempW (perFunc (projr (writeFuncImpl exDeps (exFunc True True zeroID [assignReadU8 303])
      (newGen ''foo'' exTm [])))) = 1 \<and>
   tempR (perFunc (projr (writeFuncImpl exDeps (exFunc True True zeroID [assignReadU8 303])
      (newGen ''foo'' exTm [])))) = 1 \<and>
   writeFuncImpl exDeps (exFunc False False zeroID [KExpr inSrcReadU8]) (newGen ''foo'' exTm [])
     = Inl TemporaryCountOutOfSync \<and>
   writeExpr exDeps inSrcReadU8 replaceCallSuspendibles parenthesesMandatory 0 (newGen ''foo'' exTm [])
     = Inl TemporaryCountOutOfSync \<and>
   tempR (perFunc (projr (writeStatement exDeps (assignReadU8 303) 0 (newGen ''foo'' exTm []))))
     \<le> tempW (perFunc (projr (writeStatement exDeps (assignReadU8 303) 0 (newGen ''foo'' exTm []))))"
proof -
  let ?g = "newGen ''foo'' exTm []"
  let ?ok = "exFunc True True zeroID [assignReadU8 303]"
  let ?bad = "exFunc False False zeroID [KExpr inSrcReadU8]"
  have a: "\<not> isl (writeFuncImpl exDeps ?ok ?g)"
    by code_simp
  have aw: "tempW (perFunc (projr (writeFuncImpl exDeps ?ok ?g))) = 1"
    by code_simp
  have b: "\<not> isl (writeFuncImplBody exDeps ?bad ?g)"
    by code_simp
  have b': "tempW (perFunc (projr (writeFuncImplBody exDeps ?bad ?g)))
      \<noteq> tempR (perFunc (projr (writeFuncImplBody exDeps ?bad ?g)))"
    by code_simp
  have c: "CallSuspendible inSrcReadU8 \<and> \<not> 0 > MaxExprDepth exDeps
      \<and> tempR (perFunc ?g) \<ge> tempW (perFunc ?g)"
    by code_simp
  have s: "\<not> isl (writeStatement exDeps (assignReadU8 303) 0 ?g)"
    by code_simp
  have o: "tempsOK ?g"
    by (simp add: tempsOK_def newGen_def)
  obtain g' where g': "writeFuncImpl exDeps ?ok ?g = Inr g'"
    using a by (cases "writeFuncImpl exDeps ?ok ?g") auto
  obtain g1 where g1: "writeFuncImplBody exDeps ?bad ?g = Inr g1"
    using b by (cases "writeFuncImplBody exDeps ?bad ?g") auto
  obtain g2 where g2: "writeStatement exDeps (assignReadU8 303) 0 ?g = Inr g2"
    using s by (cases "writeStatement exDeps (assignReadU8 303) 0 ?g") auto
  note t = temporaries_in_sync [where d = exDeps and n = ?ok and g = ?g and g' = g', THEN conjunct1]
    temporaries_in_sync [where d = exDeps and n = ?bad and g = ?g and ?g1.0 = g1,
      THEN conjunct2, THEN conjunct1]
    temporaries_in_sync [where d = exDeps and e = inSrcReadU8 and depth = 0 and g = ?g
      and pp = parenthesesMandatory, THEN conjunct2, THEN conjunct2, THEN conjunct1]
    temporaries_in_sync [where d = exDeps and x = "assignReadU8 303" and depth = 0 and g = ?g
      and ?g2.0 = g2, THEN conjunct2, THEN conjunct2, THEN conjunct2]
  show ?thesis
    using t g' g1 g2 aw b' c o by simp
qed

subsection \<open>The values of the status codes\<close>

















subsection \<open>The text of the header\<close>

lemma writes_writes: "writes t (writes s g) = writes (s @ t) g"
  by (simp add: writes_def)

lemma fold_writes:
  assumes "\<And>x s. pkgName s = pkgName g \<Longrightarrow> h s x = h g x"
  shows "pkgName s = pkgName g \<Longrightarrow>
    fold (\<lambda>x s. writes (h s x) s) xs s = writes (concat (map (h g) xs)) s"
proof (induction xs arbitrary: s)
  case Nil
  show ?case by (simp add: writes_def)
next
  case (Cons x xs)
  have "pkgName (writes (h s x) s) = pkgName g"
    using Cons.prems by simp
  from Cons.IH [OF this] show ?case
    using assms [OF Cons.prems] by (simp add: writes_writes)
qed

lemma genHeaderEnum_eq:
  "genHeaderEnum g =
    writes (concat (map (builtInEnumEntry g) (enumerate 0 builtInStatuses))
            @ concat (map userEnumEntry (enumerate 0 (statusList g)))) g"
proof -
  have a: "fold (\<lambda>x s. writes (builtInEnumEntry s x) s) xs g
      = writes (concat (map (builtInEnumEntry g) xs)) g" for xs
    by (rule fold_writes) (simp_all add: builtInEnumEntry_def cName_def)
  have b: "fold (\<lambda>x s. writes (userEnumEntry x) s) xs s
      = writes (concat (map userEnumEntry xs)) s" for xs s
    by (rule fold_writes [where h = "\<lambda>s. userEnumEntry" and g = s]) simp_all
  show ?thesis
    unfolding genHeaderEnum_def Let_def by (simp add: a b writes_writes)
qed

lemma grows_genHeaderPrelude: "grows g0 g \<Longrightarrow> grows g0 (genHeaderPrelude d g)"
  unfolding genHeaderPrelude_def Let_def by (auto intro!: grows_writes)

lemma grows_genHeaderEnum: "grows g0 g \<Longrightarrow> grows g0 (genHeaderEnum g)"
  unfolding genHeaderEnum_eq by (rule grows_writes)

lemma grows_forEachFunc:
  assumes "\<And>x s s'. f x s = Inr s' \<Longrightarrow> grows g0 s \<Longrightarrow> grows g0 s'"
  shows "forEachFunc v f g = Inr g' \<Longrightarrow> grows g0 g \<Longrightarrow> grows g0 g'"
  unfolding forEachFunc_eq
  by (erule grows_forEach [rotated]) (use assms in blast)+

lemma grows_eqs:
  "grows g g' \<Longrightarrow> pkgName g' = pkgName g \<and> tm g' = tm g \<and> files g' = files g \<and>
     statusList g' = statusList g \<and> structList g' = structList g \<and> structMap g' = structMap g"
  by (simp add: grows_def)

lemma case_sum_Inr:
  "(case x of Inl e \<Rightarrow> Inl e | Inr g \<Rightarrow> k g) = Inr g' \<Longrightarrow> \<exists>g1. x = Inr g1 \<and> k g1 = Inr g'"
  by (cases x) auto

lemma genHeader_parts:
  assumes a: "genHeader d g = Inr g'"
  shows "\<exists>gT gS gC gF.
    grows (genHeaderEnum (genHeaderPrelude d g)) gT \<and>
    forEach writeStruct (structList gT) gT = Inr gS \<and>
    forEach (\<lambda>n g. if Struct.Public n then writeCtorPrototype n g else Inr g) (structList gS)
      (writes ''// ---------------- Public Constructor and Destructor Prototypes\<newline>\<newline>'' gS) = Inr gC \<and>
    forEachFunc pubOnly writeFuncPrototype
      (writes ''// ---------------- Public Function Prototypes\<newline>\<newline>'' gC) = Inr gF \<and>
    grows gF g'"
  using a unfolding genHeader_def Let_def
  apply -
  apply (drule case_sum_Inr, erule exE, erule conjE)
  apply (drule case_sum_Inr, erule exE, erule conjE)
  apply (drule case_sum_Inr, erule exE, erule conjE)
  apply (rule exI, rule exI, rule exI, rule exI)
  apply (intro conjI)
      prefer 2 apply assumption
     prefer 2 apply assumption
    prefer 2 apply assumption
   apply (intro grows_writes grows_refl)
  apply (auto intro!: grows_writes)
  done

lemma grows_genHeader_enum:
  assumes a: "genHeader d g = Inr g'"
  shows "grows (genHeaderEnum (genHeaderPrelude d g)) g'"
proof -
  let ?gE = "genHeaderEnum (genHeaderPrelude d g)"
  from genHeader_parts [OF a] obtain gT gS gC gF where
    t: "grows ?gE gT"
    and s: "forEach writeStruct (structList gT) gT = Inr gS"
    and c: "forEach (\<lambda>n g. if Struct.Public n then writeCtorPrototype n g else Inr g) (structList gS)
      (writes ''// ---------------- Public Constructor and Destructor Prototypes\<newline>\<newline>'' gS) = Inr gC"
    and f: "forEachFunc pubOnly writeFuncPrototype
      (writes ''// ---------------- Public Function Prototypes\<newline>\<newline>'' gC) = Inr gF"
    and g': "grows gF g'"
    by blast
  have gS: "grows ?gE gS"
    using s t by (rule grows_forEach [rotated 1]) (erule grows_writeStruct)
  have gC: "grows ?gE gC"
    using c grows_writes [OF gS]
    by (rule grows_forEach [rotated 1]) (auto split: if_splits elim: grows_writeCtorPrototype)
  have gF: "grows ?gE gF"
    using f grows_writes [OF gC]
    by (rule grows_forEachFunc [rotated 1]) (erule grows_writeFuncPrototype)
  show ?thesis
    using gF g' by (rule grows_trans)
qed

lemma grows_genHeader: "genHeader d g = Inr g' \<Longrightarrow> grows g g'"
  using grows_genHeader_enum [of d g g']
    grows_genHeaderEnum [OF grows_genHeaderPrelude [OF grows_refl], of g d]
  by (blast intro: grows_trans)









subsection \<open>The collector of the statuses\<close>

lemma forEachStatus_eq:
  "forEachStatus bothPubPri f g = forEach f (statusDecls (files g)) g"
proof -
  let ?sel = "\<lambda>n. case n of KStatus st \<Rightarrow> [st] | _ \<Rightarrow> []"
  have inner: "forEach (\<lambda>n.
      (case n of
         KStatus st \<Rightarrow>
           if (bothPubPri = pubOnly \<and> \<not> Status.Public st) \<or> (bothPubPri = priOnly \<and> Status.Public st)
           then Inr
           else f st
       | _ \<Rightarrow> Inr)) fl s = forEach f (concat (map ?sel fl)) s" for fl s
    by (rule forEach_concat_map) (auto split: TopLevelDecl.splits sum.splits)
  show ?thesis
    unfolding forEachStatus_def statusDecls_def
    by (rule forEach_concat_map) (rule inner)
qed

lemma quotedLiteral_nth:
  "(length m < 2 \<or> m ! 0 \<noteq> CHR 0x22 \<or> m ! (length m - 1) \<noteq> CHR 0x22) \<longleftrightarrow> \<not> quotedLiteral m"
  unfolding quotedLiteral_def by (cases m) (auto simp: last_conv_nth Suc_le_eq)

lemma unquoted_take: "take (length m - 1 - 1) (drop 1 m) = unquoted m"
  unfolding unquoted_def by (cases m) (simp_all add: butlast_conv_take)

lemma gatherStatuses_eq:
  "gatherStatuses n g =
    (if quotedLiteral (String (tm g) (Message n))
     then Inr (g\<lparr>statusList := statusList g @ [gatheredStatus g n],
                statusMap := (statusMap g)(Message n \<mapsto> gatheredStatus g n)\<rparr>)
     else Inl (BadStatusMessage (String (tm g) (Message n))))"
  unfolding gatherStatuses_def Let_def quotedLiteral_nth unquoted_take gatheredStatus_def
  by simp

lemma gatheredStatus_cong:
  "pkgName g' = pkgName g \<Longrightarrow> tm g' = tm g \<Longrightarrow> gatheredStatus g' = gatheredStatus g"
  by (rule ext) (simp add: gatheredStatus_def cName_def)

lemma forEach_gatherStatuses:
  "forEach gatherStatuses xs g =
    (case find (\<lambda>st. \<not> quotedLiteral (String (tm g) (Message st))) xs of
       Some st \<Rightarrow> Inl (BadStatusMessage (String (tm g) (Message st)))
     | None \<Rightarrow>
         Inr (g\<lparr>statusList := statusList g @ map (gatheredStatus g) xs,
                statusMap := fold (\<lambda>st m. m(Message st \<mapsto> gatheredStatus g st)) xs (statusMap g)\<rparr>))"
proof (induction xs arbitrary: g)
  case Nil
  show ?case by simp
next
  case (Cons x xs)
  show ?case
  proof (cases "quotedLiteral (String (tm g) (Message x))")
    case False
    then show ?thesis by (simp add: gatherStatuses_eq)
  next
    case True
    let ?g1 = "g\<lparr>statusList := statusList g @ [gatheredStatus g x],
                statusMap := (statusMap g)(Message x \<mapsto> gatheredStatus g x)\<rparr>"
    have c: "gatheredStatus ?g1 = gatheredStatus g"
      by (rule gatheredStatus_cong) simp_all
    have 1: "forEach gatherStatuses (x # xs) g = forEach gatherStatuses xs ?g1"
      using True by (simp add: gatherStatuses_eq)
    have 2: "forEach gatherStatuses xs ?g1 =
      (case find (\<lambda>st. \<not> quotedLiteral (String (tm g) (Message st))) xs of
         Some st \<Rightarrow> Inl (BadStatusMessage (String (tm g) (Message st)))
       | None \<Rightarrow>
           Inr (g\<lparr>statusList := statusList g @ map (gatheredStatus g) (x # xs),
                  statusMap := fold (\<lambda>st m. m(Message st \<mapsto> gatheredStatus g st)) (x # xs)
                                 (statusMap g)\<rparr>))"
      by (simp add: Cons.IH [of ?g1] c split: option.splits)
    have 3: "find (\<lambda>st. \<not> quotedLiteral (String (tm g) (Message st))) (x # xs)
        = find (\<lambda>st. \<not> quotedLiteral (String (tm g) (Message st))) xs"
      using True by simp
    show ?thesis
      by (simp only: 1 2 3)
  qed
qed

lemma find_None_iff_all: "find P xs = None \<longleftrightarrow> (\<forall>x \<in> set xs. \<not> P x)"
  by (induction xs) auto

lemma find_Some_member: "find P xs = Some x \<Longrightarrow> x \<in> set xs \<and> P x"
  by (induction xs) (auto split: if_splits)

text \<open>
  C5. The collector fails exactly when the message of some status declaration is not
  a quoted string literal, and its error then is the bad message of such a
  declaration. When it succeeds, the list of the user-defined statuses has grown by
  the status of each declaration, in the order of the declarations across the files,
  with the mangled name of \<^verbatim>\<open>error\<close> or \<^verbatim>\<open>status\<close>, a space and the unquoted
  message. A package with a message that is not quoted is not generated.
\<close>

theorem collector_statuses:
  "(isl (forEachStatus bothPubPri gatherStatuses g) \<longleftrightarrow>
      (\<exists>st \<in> set (statusDecls (files g)). \<not> quotedLiteral (String (tm g) (Message st)))) \<and>
   (\<forall>e. forEachStatus bothPubPri gatherStatuses g = Inl e \<longrightarrow>
      (\<exists>st \<in> set (statusDecls (files g)).
         \<not> quotedLiteral (String (tm g) (Message st)) \<and>
         e = BadStatusMessage (String (tm g) (Message st)))) \<and>
   (\<forall>g'. forEachStatus bothPubPri gatherStatuses g = Inr g' \<longrightarrow>
      statusList g' = statusList g @ map (gatheredStatus g) (statusDecls (files g)) \<and>
      (\<forall>st \<in> set (statusDecls (files g)).
         name (gatheredStatus g st)
           = cName g ((if Key (Keyword st) = KeyError then ''error '' else ''status '')
                        @ unquoted (String (tm g) (Message st))))) \<and>
   ((\<exists>st \<in> set (statusDecls (files g)). \<not> quotedLiteral (String (tm g) (Message st)))
      \<longrightarrow> (\<exists>m. generate d g = Inl (BadStatusMessage m)))"
proof -
  let ?P = "\<lambda>st. \<not> quotedLiteral (String (tm g) (Message st))"
  let ?xs = "statusDecls (files g)"
  have eq: "forEachStatus bothPubPri gatherStatuses h = forEach gatherStatuses (statusDecls (files h)) h" for h
    by (rule forEachStatus_eq)
  show ?thesis
  proof (cases "find ?P ?xs")
    case None
    then have all: "\<forall>st \<in> set ?xs. \<not> ?P st"
      by (simp add: find_None_iff_all)
    show ?thesis
      using None all by (simp add: eq forEach_gatherStatuses gatheredStatus_def)
  next
    case (Some st)
    then have st: "st \<in> set ?xs \<and> ?P st"
      by (rule find_Some_member)
    let ?g0 = "g\<lparr>statusMap := (\<lambda>k. None)\<rparr>"
    have "find (\<lambda>st. \<not> quotedLiteral (String (tm ?g0) (Message st))) (statusDecls (files ?g0)) = Some st"
      using Some by simp
    then have "forEachStatus bothPubPri gatherStatuses ?g0
        = Inl (BadStatusMessage (String (tm g) (Message st)))"
      by (simp add: eq [of ?g0] forEach_gatherStatuses)
    then have gen: "generate d g = Inl (BadStatusMessage (String (tm g) (Message st)))"
      by (simp add: generate_def)
    have "forEachStatus bothPubPri gatherStatuses g = Inl (BadStatusMessage (String (tm g) (Message st)))"
      using Some by (simp add: eq forEach_gatherStatuses)
    then show ?thesis
      using st gen by auto
  qed
qed

theorem collector_statuses_witness:
  "isl (forEachStatus bothPubPri gatherStatuses (newGen ''foo'' exTm [[exStatus], [exBadStatus]])) \<and>
   statusList (projr (forEachStatus bothPubPri gatherStatuses (newGen ''foo'' exTm [[KUse], [exStatus]])))
     = [\<lparr>name = ''puffs_foo_error_bad_magic'', msg = ''bad magic'', isError = True\<rparr>] \<and>
   isl (generate exDeps (newGen ''foo'' exTm [[exStatus], [exBadStatus]]))"
proof -
  let ?bad = "newGen ''foo'' exTm [[exStatus], [exBadStatus]]"
  let ?ok = "newGen ''foo'' exTm [[KUse], [exStatus]]"
  have b: "\<exists>st \<in> set (statusDecls (files ?bad)). \<not> quotedLiteral (String (tm ?bad) (Message st))"
    by code_simp
  have o: "\<not> (\<exists>st \<in> set (statusDecls (files ?ok)). \<not> quotedLiteral (String (tm ?ok) (Message st)))"
    by code_simp
  have l: "statusList ?ok @ map (gatheredStatus ?ok) (statusDecls (files ?ok))
      = [\<lparr>name = ''puffs_foo_error_bad_magic'', msg = ''bad magic'', isError = True\<rparr>]"
    by (simp add: newGen_def statusDecls_def exStatus_def gatheredStatus_def exTm_def exNames_def
        userID_def cName_def unquoted_def key_defs)
  note t1 = collector_statuses [of ?bad exDeps, THEN conjunct1]
  note t4 = collector_statuses [of ?bad exDeps, THEN conjunct2, THEN conjunct2, THEN conjunct2]
  note o1 = collector_statuses [of ?ok exDeps, THEN conjunct1]
  note o3 = collector_statuses [of ?ok exDeps, THEN conjunct2, THEN conjunct2, THEN conjunct1]
  have "\<not> isl (forEachStatus bothPubPri gatherStatuses ?ok)"
    using o1 o by blast
  then obtain g' where g': "forEachStatus bothPubPri gatherStatuses ?ok = Inr g'"
    by (cases "forEachStatus bothPubPri gatherStatuses ?ok") auto
  have "statusList g' = [\<lparr>name = ''puffs_foo_error_bad_magic'', msg = ''bad magic'', isError = True\<rparr>]"
    using o3 g' l by simp
  moreover have "isl (forEachStatus bothPubPri gatherStatuses ?bad)"
    using t1 b by blast
  moreover have "isl (generate exDeps ?bad)"
    using t4 b by auto
  ultimately show ?thesis
    using g' by simp
qed

subsection \<open>The prologue of a public method\<close>

lemma writeFuncImplBody_prologue:
  assumes a: "writeFuncImplBody d n g = Inr g'"
  shows "\<exists>gS. writeFuncSignature n
            (g\<lparr>perFunc := \<lparr>funk = Some n, jumpTargets = [], tempW = 0, tempR = 0,
                            public = False, suspendible = False\<rparr>\<rparr>) = Inr gS \<and>
          grows (writeFuncImplPrologue n (writes ''{\<newline>'' gS)) g'"
proof -
  define gR where "gR = g\<lparr>perFunc := \<lparr>funk = Some n, jumpTargets = [], tempW = 0, tempR = 0,
                            public = False, suspendible = False\<rparr>\<rparr>"
  define gP where "gP = (\<lambda>gS. writeFuncImplPrologue n (writes ''{\<newline>'' gS))"
  from a obtain gS gA gV gB where
    s: "writeFuncSignature n gR = Inr gS"
    and c: "(if Func.Public n then writeFuncImplArgChecks n (gP gS) else Inr (gP gS)) = Inr gA"
    and v: "writeVars d (Func.Body n) 0 (writes ''\<newline>'' gA) = Inr gV"
    and b: "forEach (\<lambda>x. writeStatement d x 0) (Func.Body n) (writes ''\<newline>'' gV) = Inr gB"
    and g': "g' = writes ''}\<newline>\<newline>'' (writeFuncImplEpilogue (writes ''\<newline>'' gB))"
    unfolding writeFuncImplBody_def Let_def gR_def gP_def
    by (auto split: sum.splits)
  have gA: "grows (gP gS) gA"
    using c grows_writeFuncImplArgChecks [of n "gP gS" gA "gP gS"] by (auto split: if_splits)
  have sV: "step (writes ''\<newline>'' gA) gV"
    using step_writeVars [OF v step_refl] .
  then have sV': "step (writes ''\<newline>'' gA) (writes ''\<newline>'' gV)"
    by (rule step_writes)
  have sB: "step (writes ''\<newline>'' gA) gB"
    using step_forEach_writeStatement [OF b sV'] .
  have "grows (gP gS) (writes ''\<newline>'' gA)"
    using gA by (rule grows_writes)
  then have gB: "grows (gP gS) gB"
    using grows_of_step [OF sB] by simp
  have "grows (gP gS) g'"
    unfolding g' using gB
    by (auto intro!: grows_writes grows_writeFuncImplEpilogue)
  then show ?thesis
    using s unfolding gR_def gP_def by blast
qed

lemma writeFuncSignature_void:
  assumes a: "writeFuncSignature n g = Inr g'"
    and n: "\<not> Func.Suspendible n" "Receiver n \<noteq> zeroID"
  shows "prefix (buffer g @ ''void puffs_'' @ pkgName g @ ''_'' @ String (tm g) (Receiver n) @ ''_''
            @ String (tm g) (Func.Name n) @ ''(puffs_'' @ pkgName g @ ''_''
            @ String (tm g) (Receiver n) @ '' *self'') (buffer g')"
    and "pkgName g' = pkgName g"
proof -
  define gA where "gA = writes (''void puffs_'' @ pkgName g @ ''_'' @ String (tm g) (Receiver n) @ ''_''
            @ String (tm g) (Func.Name n) @ ''(puffs_'' @ pkgName g @ ''_''
            @ String (tm g) (Receiver n) @ '' *self'') g"
  from a obtain g1 where
    s: "writeFuncSignatureArgs True (In n) gA = Inr g1" and g': "g' = writes '')'' g1"
    unfolding writeFuncSignature_def Let_def gA_def using n
    by (auto simp: writes_writes split: sum.splits)
  have "grows gA g1"
    using grows_writeFuncSignatureArgs [OF s grows_refl] .
  then have "grows gA g'"
    unfolding g' by (rule grows_writes)
  then show "prefix (buffer g @ ''void puffs_'' @ pkgName g @ ''_'' @ String (tm g) (Receiver n) @ ''_''
            @ String (tm g) (Func.Name n) @ ''(puffs_'' @ pkgName g @ ''_''
            @ String (tm g) (Receiver n) @ '' *self'') (buffer g')"
    and "pkgName g' = pkgName g"
    by (simp_all add: grows_def gA_def writes_def)
qed

lemma writeFuncImplPrologue_method:
  assumes "Func.Public n" "\<not> Func.Suspendible n" "Receiver n \<noteq> zeroID"
  shows "buffer (writeFuncImplPrologue n g) = buffer g @
      ''if (!self) {\<newline>return;}\<newline>if (self->private_impl.status & 1) { return; }''
      @ ''if (self->private_impl.magic != PUFFS_MAGIC) {self->private_impl.status = puffs_''
      @ pkgName g @ ''_error_constructor_not_called; return; }\<newline>''"
  using assms by (simp add: writeFuncImplPrologue_def Let_def writes_def)

text \<open>
  C10. The implementation of a public function that is not suspendible and has a
  receiver is a \<^verbatim>\<open>void\<close> function which, after its opening brace, returns when
  \<^verbatim>\<open>self\<close> is null, returns when the status of the receiver is an error
  (\<^verbatim>\<open>self->private_impl.status & 1\<close>), and, when the magic number of the receiver is
  not \<^verbatim>\<open>PUFFS_MAGIC\<close>, stores \<^verbatim>\<open>error_constructor_not_called\<close> into the status of the
  receiver and returns.
\<close>

theorem method_prologue_checks:
  "Func.Public n \<and> \<not> Func.Suspendible n \<and> Receiver n \<noteq> zeroID \<and> writeFuncImpl d n g = Inr g' \<longrightarrow>
     prefix (buffer g @ ''void puffs_'' @ pkgName g @ ''_'' @ String (tm g) (Receiver n) @ ''_''
            @ String (tm g) (Func.Name n) @ ''(puffs_'' @ pkgName g @ ''_''
            @ String (tm g) (Receiver n) @ '' *self'') (buffer g') \<and>
     sublist (''{\<newline>if (!self) {\<newline>return;}\<newline>if (self->private_impl.status & 1) { return; }''
      @ ''if (self->private_impl.magic != PUFFS_MAGIC) {self->private_impl.status = puffs_''
      @ pkgName g @ ''_error_constructor_not_called; return; }\<newline>'') (buffer g')"
proof (intro impI)
  assume h: "Func.Public n \<and> \<not> Func.Suspendible n \<and> Receiver n \<noteq> zeroID \<and> writeFuncImpl d n g = Inr g'"
  let ?gR = "g\<lparr>perFunc := \<lparr>funk = Some n, jumpTargets = [], tempW = 0, tempR = 0,
                            public = False, suspendible = False\<rparr>\<rparr>"
  let ?sig = "''void puffs_'' @ pkgName g @ ''_'' @ String (tm g) (Receiver n) @ ''_''
            @ String (tm g) (Func.Name n) @ ''(puffs_'' @ pkgName g @ ''_''
            @ String (tm g) (Receiver n) @ '' *self''"
  let ?pro = "''if (!self) {\<newline>return;}\<newline>if (self->private_impl.status & 1) { return; }''
      @ ''if (self->private_impl.magic != PUFFS_MAGIC) {self->private_impl.status = puffs_''
      @ pkgName g @ ''_error_constructor_not_called; return; }\<newline>''"
  from h have b: "writeFuncImplBody d n g = Inr g'"
    by (auto simp: writeFuncImpl_def split: sum.splits if_splits)
  from writeFuncImplBody_prologue [OF b] obtain gS where
    s: "writeFuncSignature n ?gR = Inr gS"
    and p: "grows (writeFuncImplPrologue n (writes ''{\<newline>'' gS)) g'"
    by blast
  have sg: "prefix (buffer g @ ?sig) (buffer gS)" and pk: "pkgName gS = pkgName g"
    using writeFuncSignature_void [OF s] h by simp_all
  have bp: "buffer (writeFuncImplPrologue n (writes ''{\<newline>'' gS)) = buffer gS @ ''{\<newline>'' @ ?pro"
    using writeFuncImplPrologue_method [of n "writes ''{\<newline>'' gS"] h pk by (simp add: writes_def)
  have pre: "prefix (buffer gS @ ''{\<newline>'' @ ?pro) (buffer g')"
    using p unfolding grows_def bp by simp
  have "prefix (buffer gS) (buffer g')"
    using pre by (metis append_prefixD)
  then have 1: "prefix (buffer g @ ?sig) (buffer g')"
    using sg by (rule prefix_order.trans [rotated])
  have 2: "sublist (''{\<newline>'' @ ?pro) (buffer g')"
    using pre unfolding prefix_def sublist_def by (metis append.assoc)
  show "prefix (buffer g @ ?sig) (buffer g') \<and>
     sublist (''{\<newline>if (!self) {\<newline>return;}\<newline>if (self->private_impl.status & 1) { return; }''
      @ ''if (self->private_impl.magic != PUFFS_MAGIC) {self->private_impl.status = puffs_''
      @ pkgName g @ ''_error_constructor_not_called; return; }\<newline>'') (buffer g')"
    using 1 2 by simp
qed

theorem method_prologue_checks_witness:
  "prefix ''void puffs_foo_bar_f(puffs_foo_bar *self''
     (buffer (projr (writeFuncImpl exDeps (exFunc True False (userID 306) []) (newGen ''foo'' exTm [])))) \<and>
   sublist (''{\<newline>if (!self) {\<newline>return;}\<newline>if (self->private_impl.status & 1) { return; }''
      @ ''if (self->private_impl.magic != PUFFS_MAGIC) {self->private_impl.status = ''
      @ ''puffs_foo_error_constructor_not_called; return; }\<newline>'')
     (buffer (projr (writeFuncImpl exDeps (exFunc True False (userID 306) []) (newGen ''foo'' exTm []))))"
proof -
  let ?g = "newGen ''foo'' exTm []"
  let ?n = "exFunc True False (userID 306) []"
  have r: "\<not> isl (writeFuncImpl exDeps ?n ?g)"
    by code_simp
  then obtain g' where g': "writeFuncImpl exDeps ?n ?g = Inr g'"
    by (cases "writeFuncImpl exDeps ?n ?g") auto
  have n: "Func.Public ?n \<and> \<not> Func.Suspendible ?n \<and> Receiver ?n \<noteq> zeroID"
    by (simp add: exFunc_def userID_def zeroID_def)
  have e: "buffer ?g = []" "pkgName ?g = ''foo''" "String (tm ?g) (Receiver ?n) = ''bar''"
    "String (tm ?g) (Func.Name ?n) = ''f''"
    by (simp_all add: newGen_def exFunc_def exTm_def exNames_def userID_def)
  from method_prologue_checks [of ?n exDeps ?g g'] n g'
  show ?thesis
    unfolding e by simp
qed

subsection \<open>The checks of the arguments\<close>







subsection \<open>The assignment of a byte that is read from the source\<close>

lemma word_lt_inc:
  assumes "(w :: 32 word) \<le> 10000" and "r \<le> w"
  shows "r < w + 1" and "unat (w + 1) = unat w + 1"
proof -
  have w: "unat w \<le> 10000"
    using assms(1) by (simp add: word_le_nat_alt)
  have "unat (w + 1) = (unat w + 1) mod 2 ^ 32"
    by (simp add: unat_word_ariths)
  then show s: "unat (w + 1) = unat w + 1"
    using w by simp
  have "unat r \<le> unat w"
    using assms(2) by (simp add: word_le_nat_alt)
  then show "r < w + 1"
    using s by (simp add: word_less_nat_alt)
qed

lemma writeCTypeName_u8:
  "writeCTypeName (typeOf KeyU8) p v h = Inr (writes (''uint8_t '' @ p @ v) h)"
  by (simp add: writeCTypeName_def typeOf_def cTypeNamesLen_def cTypeNamesAt_def cTypeNames_def
      key_defs Let_def writes_def writeb_def zeroID_def)

lemma cOpNamesAt_eq: "cOpNamesAt (0xFF AND KeyEq) = '' = ''"
  by code_simp

lemma writeStatement_readU8:
  assumes r: "isInSrcReadU8 (tm g) rhs = Inr True" "Expr.Suspendible rhs" "MType rhs = typeOf KeyU8"
    and l: "ID0 lhs = zeroID" "Key (ID1 lhs) \<noteq> KeyThis" "\<not> Expr.Suspendible lhs"
      "\<not> CallSuspendible lhs" "ConstValue lhs = None"
    and o: "Key operator = KeyEq"
    and dp: "\<not> depth > MaxBodyDepth d" "\<not> depth + 1 > MaxExprDepth d"
    and t: "tempR (perFunc g) \<le> tempW (perFunc g)" "tempW (perFunc g) \<le> maxTemp"
  shows "writeStatement d (KAssign lhs operator rhs) depth g =
    Inr (g\<lparr>buffer := buffer g
             @ ''if (a_src->ri >= a_src->wi) { status = a_src->closed ? puffs_'' @ pkgName g
             @ ''_error_unexpected_eof : puffs_'' @ pkgName g @ ''_status_short_read;''
             @ (if public (perFunc g) \<and> suspendible (perFunc g)
                then ''goto cleanup0;'' else ''return status;'')
             @ ''}\<newline>''
             @ ''uint8_t t_'' @ showNat (unat (tempW (perFunc g)))
             @ '' = a_src->ptr[a_src->ri++];\<newline>''
             @ ''v_'' @ String (tm g) (ID1 lhs) @ '' = t_''
             @ showNat (unat (tempR (perFunc g))) @ '';\<newline>'',
           perFunc := (perFunc g)\<lparr>tempW := tempW (perFunc g) + 1,
                                   tempR := tempR (perFunc g) + 1\<rparr>\<rparr>)"
proof -
  define g1 where "g1 = g\<lparr>buffer := buffer g
             @ ''if (a_src->ri >= a_src->wi) { status = a_src->closed ? puffs_'' @ pkgName g
             @ ''_error_unexpected_eof : puffs_'' @ pkgName g @ ''_status_short_read;''
             @ (if public (perFunc g) \<and> suspendible (perFunc g)
                then ''goto cleanup0;'' else ''return status;'')
             @ ''}\<newline>''
             @ ''uint8_t t_'' @ showNat (unat (tempW (perFunc g)))
             @ '' = a_src->ptr[a_src->ri++];\<newline>'',
           perFunc := (perFunc g)\<lparr>tempW := tempW (perFunc g) + 1\<rparr>\<rparr>"
  define g2 where "g2 = writes '' = '' (writes (''v_'' @ String (tm g) (ID1 lhs)) g1)"
  have cs: "CallSuspendible rhs"
    using r(1) by (auto simp: isInSrcReadU8_def split: if_splits)
  have nt: "\<not> tempW (perFunc g) > maxTemp"
    using t(2) by simp
  have lt: "tempR (perFunc g) < tempW (perFunc g) + 1"
    using word_lt_inc(1) [of "tempW (perFunc g)" "tempR (perFunc g)"] t
    by (simp add: maxTemp_def)
  have 1: "writeSuspendibles d lhs (depth + 1) g = Inr g"
    using l by (simp add: writeSuspendibles_def)
  have h: "hoistInSrcReadU8 rhs g = Inr g1"
    using nt r(3)
    by (simp add: hoistInSrcReadU8_def Let_def writeCTypeName_u8 writes_def aPrefix_def
        tPrefix_def g1_def)
  have 2: "writeSuspendibles d rhs (depth + 1) g = Inr g1"
    unfolding writeSuspendibles_def
    by (subst writeCallSuspendibles.simps) (simp add: r cs h)
  have 3: "writeExpr d lhs replaceCallSuspendibles parenthesesMandatory (depth + 1) g1
      = Inr (writes (''v_'' @ String (tm g) (ID1 lhs)) g1)"
    using l dp(2)
    by (subst writeExpr.simps, subst writeExprOther.simps)
       (simp add: zeroID_def vPrefix_def writes_def g1_def)
  have 4: "writeExpr d rhs replaceCallSuspendibles parenthesesMandatory (depth + 1) g2
      = Inr ((writes (''t_'' @ showNat (unat (tempR (perFunc g)))) g2)
               \<lparr>perFunc := (perFunc g2)\<lparr>tempR := tempR (perFunc g) + 1\<rparr>\<rparr>)"
    using cs dp(2) lt
    by (subst writeExpr.simps)
       (simp add: replaceCallSuspendibles_def tPrefix_def g2_def g1_def not_le [symmetric])
  have 5: "cOpNamesAt (0xFF AND Key operator) = '' = ''"
    using o cOpNamesAt_eq by simp
  have "writeStatement d (KAssign lhs operator rhs) depth g =
      Inr (writes '';\<newline>'' ((writes (''t_'' @ showNat (unat (tempR (perFunc g)))) g2)
               \<lparr>perFunc := (perFunc g2)\<lparr>tempR := tempR (perFunc g) + 1\<rparr>\<rparr>))"
    by (subst writeStatement.simps)
       (simp only: dp(1) if_False Node.case 1 2 3 5 sum.case g2_def [symmetric] 4)
  then show ?thesis
    by (simp add: g2_def g1_def writes_def)
qed

lemma assignReadU8_facts:
  "isInSrcReadU8 exTm inSrcReadU8 = Inr True" "Expr.Suspendible inSrcReadU8"
  "MType inSrcReadU8 = typeOf KeyU8" "ID0 (localVar k) = zeroID"
  "\<not> Expr.Suspendible (localVar k)" "\<not> CallSuspendible (localVar k)"
  "ConstValue (localVar k) = None" "ID1 (localVar k) = userID k"
  by (code_simp, simp_all add: inSrcReadU8_def localVar_def)

lemma writeStatement_assignReadU8:
  assumes "tm g = exTm" "k \<noteq> KeyThis" "\<not> 1 > MaxExprDepth d"
    and "tempR (perFunc g) \<le> tempW (perFunc g)" "tempW (perFunc g) \<le> maxTemp"
  shows "writeStatement d (assignReadU8 k) 0 g =
    Inr (g\<lparr>buffer := buffer g
             @ ''if (a_src->ri >= a_src->wi) { status = a_src->closed ? puffs_'' @ pkgName g
             @ ''_error_unexpected_eof : puffs_'' @ pkgName g @ ''_status_short_read;''
             @ (if public (perFunc g) \<and> suspendible (perFunc g)
                then ''goto cleanup0;'' else ''return status;'')
             @ ''}\<newline>''
             @ ''uint8_t t_'' @ showNat (unat (tempW (perFunc g)))
             @ '' = a_src->ptr[a_src->ri++];\<newline>''
             @ ''v_'' @ String exTm (userID k) @ '' = t_''
             @ showNat (unat (tempR (perFunc g))) @ '';\<newline>'',
           perFunc := (perFunc g)\<lparr>tempW := tempW (perFunc g) + 1,
                                   tempR := tempR (perFunc g) + 1\<rparr>\<rparr>)"
  unfolding assignReadU8_def
  using writeStatement_readU8 [where g = g and rhs = inSrcReadU8 and lhs = "localVar k"
      and operator = "ID KeyEq False False False" and depth = 0 and d = d]
    assms assignReadU8_facts
  by (simp add: userID_def)




subsection \<open>The budget of the temporaries\<close>

lemma reads_ok:
  assumes "tm g = exTm" "\<not> 1 > MaxExprDepth d"
  shows "tempR (perFunc g) = tempW (perFunc g) \<Longrightarrow> unat (tempW (perFunc g)) + k \<le> 10001 \<Longrightarrow>
    \<exists>g'. forEach (\<lambda>x. writeStatement d x 0) (replicate k (assignReadU8 303)) g = Inr g' \<and>
         tempW (perFunc g') = tempW (perFunc g) + of_nat k \<and>
         tempR (perFunc g') = tempW (perFunc g')"
  using assms(1)
proof (induction k arbitrary: g)
  case 0
  then show ?case by simp
next
  case (Suc k)
  let ?w = "tempW (perFunc g)"
  have w: "?w \<le> 10000"
    using Suc.prems(2) by (simp add: word_le_nat_alt)
  obtain g1 where s: "writeStatement d (assignReadU8 303) 0 g = Inr g1"
    and g1: "tm g1 = exTm" "tempW (perFunc g1) = ?w + 1" "tempR (perFunc g1) = ?w + 1"
    using writeStatement_assignReadU8 [of g 303 d] Suc.prems w assms(2)
    by (simp add: maxTemp_def key_defs)
  have u: "unat (tempW (perFunc g1)) + k \<le> 10001"
    using word_lt_inc(2) [OF w order_refl] Suc.prems(2) g1 by simp
  from Suc.IH [of g1] g1 u obtain g' where
    "forEach (\<lambda>x. writeStatement d x 0) (replicate k (assignReadU8 303)) g1 = Inr g'"
    "tempW (perFunc g') = ?w + 1 + of_nat k" "tempR (perFunc g') = tempW (perFunc g')"
    by auto
  then show ?case
    using s by (simp add: algebra_simps)
qed

lemma reads_fail:
  assumes "tm g = exTm" "\<not> 1 > MaxExprDepth d"
  shows "tempR (perFunc g) = tempW (perFunc g) \<Longrightarrow> unat (tempW (perFunc g)) \<le> 10001 \<Longrightarrow>
    unat (tempW (perFunc g)) + k > 10001 \<Longrightarrow>
    forEach (\<lambda>x. writeStatement d x 0) (replicate k (assignReadU8 303)) g
      = Inl TooManyTemporaryVariables"
  using assms(1)
proof (induction k arbitrary: g)
  case 0
  then show ?case by simp
next
  case (Suc k)
  let ?w = "tempW (perFunc g)"
  show ?case
  proof (cases "?w \<le> 10000")
    case True
    obtain g1 where s: "writeStatement d (assignReadU8 303) 0 g = Inr g1"
      and g1: "tm g1 = exTm" "tempW (perFunc g1) = ?w + 1" "tempR (perFunc g1) = ?w + 1"
      using writeStatement_assignReadU8 [of g 303 d] Suc.prems True assms(2)
      by (simp add: maxTemp_def key_defs)
    have u: "unat (tempW (perFunc g1)) = unat ?w + 1"
      using word_lt_inc(2) [OF True order_refl] g1 by simp
    have "unat ?w \<le> 10000"
      using True by (simp add: word_le_nat_alt)
    then have "forEach (\<lambda>x. writeStatement d x 0) (replicate k (assignReadU8 303)) g1
        = Inl TooManyTemporaryVariables"
      using Suc.IH [of g1] g1 u Suc.prems(3) by simp
    then show ?thesis
      using s by simp
  next
    case False
    then have gt: "?w > maxTemp"
      by (simp add: maxTemp_def not_le)
    have cs: "CallSuspendible inSrcReadU8"
      by (simp add: inSrcReadU8_def)
    have 1: "writeSuspendibles d (localVar 303) 1 g = Inr g"
      by (simp add: writeSuspendibles_def assignReadU8_facts)
    have 2: "writeSuspendibles d inSrcReadU8 1 g = Inl TooManyTemporaryVariables"
      unfolding writeSuspendibles_def
      by (subst writeCallSuspendibles.simps)
         (simp add: assignReadU8_facts cs Suc.prems(4) hoistInSrcReadU8_def gt)
    have "writeStatement d (assignReadU8 303) 0 g = Inl TooManyTemporaryVariables"
      unfolding assignReadU8_def
      by (subst writeStatement.simps) (simp add: 1 2)
    then show ?thesis
      by simp
  qed
qed

lemma forEach_Inr: "(\<And>x s. x \<in> set xs \<Longrightarrow> f x s = Inr s) \<Longrightarrow> forEach f xs g = Inr g"
  by (induction xs) auto

lemma writeVars_reads:
  "writeVars d (replicate k (assignReadU8 303)) 0 g = Inr g"
  by (subst writeVars.simps) (auto simp: assignReadU8_def intro!: forEach_Inr)

lemma writeFuncImplBody_readsFunc:
  "\<exists>gB. tm gB = tm g \<and> tempW (perFunc gB) = 0 \<and> tempR (perFunc gB) = 0 \<and>
     writeFuncImplBody d (readsFunc k) g =
       (case forEach (\<lambda>x. writeStatement d x 0) (replicate k (assignReadU8 303)) gB of
          Inl e \<Rightarrow> Inl e
        | Inr g' \<Rightarrow> Inr (writes ''}\<newline>\<newline>'' (writes ''\<newline>'' g')))"
proof -
  let ?gR = "g\<lparr>perFunc := \<lparr>funk = Some (readsFunc k), jumpTargets = [], tempW = 0, tempR = 0,
                            public = False, suspendible = False\<rparr>\<rparr>"
  have ct: "writeCTypeName (typeOf KeyBuf1) p v h = Inr (writes (''puffs_base_buf1 '' @ p @ v) h)"
    for p v h
    by (simp add: writeCTypeName_def typeOf_def cTypeNamesLen_def cTypeNamesAt_def cTypeNames_def
      key_defs Let_def writes_def writeb_def zeroID_def)
  obtain gS where s: "writeFuncSignature (readsFunc k) ?gR = Inr gS"
    and gS: "tm gS = tm g" "perFunc gS = perFunc ?gR"
    by (simp add: writeFuncSignature_def readsFunc_def exFunc_def srcArg_def ct Let_def)
  let ?gB = "writes ''\<newline>'' (writes ''\<newline>'' (writes ''{\<newline>'' gS))"
  have p: "writeFuncImplPrologue (readsFunc k) h = h" for h
    by (simp add: writeFuncImplPrologue_def readsFunc_def exFunc_def)
  have e: "suspendible (perFunc h) = False \<Longrightarrow> writeFuncImplEpilogue h = h" for h
    by (simp add: writeFuncImplEpilogue_def)
  have sp: "\<And>g'. forEach (\<lambda>x. writeStatement d x 0) (replicate k (assignReadU8 303)) ?gB = Inr g'
      \<Longrightarrow> suspendible (perFunc g') = False"
    using step_forEach_writeStatement [OF _ step_refl, of d 0 _ ?gB] gS
    by (auto simp: step_def sameEnv_def)
  have "writeFuncImplBody d (readsFunc k) g =
       (case forEach (\<lambda>x. writeStatement d x 0) (replicate k (assignReadU8 303)) ?gB of
          Inl e \<Rightarrow> Inl e
        | Inr g' \<Rightarrow> Inr (writes ''}\<newline>\<newline>'' (writes ''\<newline>'' g')))"
    unfolding writeFuncImplBody_def Let_def
    using s sp
    by (auto simp: p e writeVars_reads readsFunc_def [symmetric] split: sum.splits)
       (simp_all add: readsFunc_def exFunc_def writeVars_reads e)
  then show ?thesis
    using gS by (intro exI [of _ ?gB]) simp
qed

lemma readsFunc_ok:
  assumes "tm g = exTm" "\<not> 1 > MaxExprDepth d" "k \<le> 10001"
  shows "\<exists>g'. writeFuncImpl d (readsFunc k) g = Inr g' \<and> tempW (perFunc g') = of_nat k"
proof -
  from writeFuncImplBody_readsFunc [of g d k] obtain gB where
    gB: "tm gB = tm g" "tempW (perFunc gB) = 0" "tempR (perFunc gB) = 0"
    and b: "writeFuncImplBody d (readsFunc k) g =
       (case forEach (\<lambda>x. writeStatement d x 0) (replicate k (assignReadU8 303)) gB of
          Inl e \<Rightarrow> Inl e
        | Inr g' \<Rightarrow> Inr (writes ''}\<newline>\<newline>'' (writes ''\<newline>'' g')))"
    by blast
  from reads_ok [of gB d k] gB assms obtain g' where
    "forEach (\<lambda>x. writeStatement d x 0) (replicate k (assignReadU8 303)) gB = Inr g'"
    "tempW (perFunc g') = of_nat k" "tempR (perFunc g') = tempW (perFunc g')"
    by auto
  then show ?thesis
    by (simp add: writeFuncImpl_def b)
qed

lemma readsFunc_fail:
  assumes "tm g = exTm" "\<not> 1 > MaxExprDepth d" "k > 10001"
  shows "writeFuncImpl d (readsFunc k) g = Inl TooManyTemporaryVariables"
proof -
  from writeFuncImplBody_readsFunc [of g d k] obtain gB where
    gB: "tm gB = tm g" "tempW (perFunc gB) = 0" "tempR (perFunc gB) = 0"
    and b: "writeFuncImplBody d (readsFunc k) g =
       (case forEach (\<lambda>x. writeStatement d x 0) (replicate k (assignReadU8 303)) gB of
          Inl e \<Rightarrow> Inl e
        | Inr g' \<Rightarrow> Inr (writes ''}\<newline>\<newline>'' (writes ''\<newline>'' g')))"
    by blast
  have "forEach (\<lambda>x. writeStatement d x 0) (replicate k (assignReadU8 303)) gB
      = Inl TooManyTemporaryVariables"
    using reads_fail [of gB d k] gB assms by simp
  then show ?thesis
    by (simp add: writeFuncImpl_def b)
qed

lemma countPointers_error:
  "countPointers n t = Inl e \<Longrightarrow> e = TooManyPtrs \<or> e = CannotConvertType"
  by (induction n t rule: countPointers.induct) (auto split: if_splits)

lemma writeCTypeName_error:
  "writeCTypeName n p v g = Inl e \<Longrightarrow> e = TooManyPtrs \<or> e = CannotConvertType \<or> e = BadAST"
  by (auto simp: writeCTypeName_def Let_def split: sum.splits prod.splits option.splits
      dest: countPointers_error)

lemma hoistInSrcReadU8_budget:
  "hoistInSrcReadU8 e g = Inl TooManyTemporaryVariables \<longleftrightarrow> tempW (perFunc g) > maxTemp"
proof (cases "tempW (perFunc g) > maxTemp")
  case True
  then show ?thesis by (simp add: hoistInSrcReadU8_def)
next
  case False
  have "hoistInSrcReadU8 e g \<noteq> Inl TooManyTemporaryVariables"
  proof
    assume a: "hoistInSrcReadU8 e g = Inl TooManyTemporaryVariables"
    then obtain p v h where "writeCTypeName (MType e) p v h = Inl TooManyTemporaryVariables"
      using False by (auto simp: hoistInSrcReadU8_def Let_def split: sum.splits)
    then show False
      using writeCTypeName_error by blast
  qed
  then show ?thesis
    using False by simp
qed

text \<open>
  C7, as the code has it. A temporary is allocated while the write cursor is at most
  \<open>maxTemp = 10000\<close>, so the temporaries of a function are \<^verbatim>\<open>t_0\<close> to \<^verbatim>\<open>t_10000\<close>:
  a function that is emitted has allocated at most 10001, the hoisting of
  \<^verbatim>\<open>in.src.read_u8?()\<close> fails with "too many temporary variables" exactly when 10001
  are allocated already, and the function that reads \<open>k\<close> bytes is emitted, with \<open>k\<close>
  temporaries, when \<open>k\<close> is at most 10001, and fails with that error when \<open>k\<close> is
  more.
\<close>

theorem temporary_budget:
  "(writeFuncImpl d n g = Inr g' \<longrightarrow> unat (tempW (perFunc g')) \<le> 10001) \<and>
   (hoistInSrcReadU8 e g = Inl TooManyTemporaryVariables \<longleftrightarrow> tempW (perFunc g) > maxTemp) \<and>
   (k \<le> 10001 \<longrightarrow>
      (\<exists>h. writeFuncImpl exDeps (readsFunc k) (newGen pkg exTm fs) = Inr h \<and>
           tempW (perFunc h) = of_nat k)) \<and>
   (k > 10001 \<longrightarrow>
      writeFuncImpl exDeps (readsFunc k) (newGen pkg exTm fs) = Inl TooManyTemporaryVariables)"
proof (intro conjI impI)
  assume "writeFuncImpl d n g = Inr g'"
  then have "tempsOK g'"
    using writeFuncImpl_props by blast
  then have "tempW (perFunc g') \<le> 10001"
    by (simp add: tempsOK_def maxTemp_def)
  then show "unat (tempW (perFunc g')) \<le> 10001"
    by (simp add: word_le_nat_alt)
next
  show "hoistInSrcReadU8 e g = Inl TooManyTemporaryVariables \<longleftrightarrow> tempW (perFunc g) > maxTemp"
    by (rule hoistInSrcReadU8_budget)
next
  assume "k \<le> 10001"
  then show "\<exists>h. writeFuncImpl exDeps (readsFunc k) (newGen pkg exTm fs) = Inr h \<and>
           tempW (perFunc h) = of_nat k"
    by (intro readsFunc_ok) (simp_all add: newGen_def exDeps_def)
next
  assume "k > 10001"
  then show "writeFuncImpl exDeps (readsFunc k) (newGen pkg exTm fs) = Inl TooManyTemporaryVariables"
    by (intro readsFunc_fail) (simp_all add: newGen_def exDeps_def)
qed

theorem temporary_budget_witness:
  "writeFuncImpl exDeps (readsFunc 10002) (newGen ''foo'' exTm []) = Inl TooManyTemporaryVariables \<and>
   tempW (perFunc (projr (writeFuncImpl exDeps (readsFunc 2) (newGen ''foo'' exTm [])))) = 2"
proof -
  note a = temporary_budget [where k = 10002 and pkg = "''foo''" and fs = "[]",
      THEN conjunct2, THEN conjunct2, THEN conjunct2]
  note b = temporary_budget [where k = 2 and pkg = "''foo''" and fs = "[]",
      THEN conjunct2, THEN conjunct2, THEN conjunct1]
  have "(2::nat) \<le> 10001"
    by simp
  with b obtain h where "writeFuncImpl exDeps (readsFunc 2) (newGen ''foo'' exTm []) = Inr h"
    "tempW (perFunc h) = of_nat 2"
    by blast
  moreover have "writeFuncImpl exDeps (readsFunc 10002) (newGen ''foo'' exTm [])
      = Inl TooManyTemporaryVariables"
    using a by simp
  ultimately show ?thesis
    by simp
qed

text \<open>
  The claim as the specification words it fails for the function that reads 10001
  bytes: it has more than 10000 suspendible calls, and it is emitted, with 10001
  temporaries.
\<close>

theorem temporary_budget_counterexample:
  "\<not> isl (writeFuncImpl exDeps (readsFunc 10001) (newGen ''foo'' exTm [])) \<and>
   unat (tempW (perFunc (projr (writeFuncImpl exDeps (readsFunc 10001) (newGen ''foo'' exTm [])))))
     = 10001 \<and>
   length (Func.Body (readsFunc 10001)) = 10001 \<and>
   unat maxTemp = 10000"
proof -
  obtain h where "writeFuncImpl exDeps (readsFunc 10001) (newGen ''foo'' exTm []) = Inr h"
    "tempW (perFunc h) = of_nat 10001"
    using readsFunc_ok [of "newGen ''foo'' exTm []" exDeps 10001]
    by (auto simp: newGen_def exDeps_def)
  then show ?thesis
    by (simp add: readsFunc_def exFunc_def maxTemp_def)
qed

end
